theory Spec2Isabelle
  imports Complex_Main "HOL-Library.Multiset" "HOL-Library.AList"
begin

section \<open>Strings and entity dictionaries\<close>

text \<open>
  A Python \<open>str\<close> is a sequence of Unicode code points. The category names and the entity
  values of the NER notebook are upper-cased, formatted and compared, so they are modelled
  as lists of code points; \<open>ascii\<close> reads a literal of ASCII characters as such a list.
  A Python \<open>Dict[str, List[str]]\<close> keeps its items in insertion order and has each key once.
  It is modelled as an association list; \<open>wf_dict\<close> says that the keys are distinct.
\<close>

type_synonym code_point = nat

type_synonym str = "code_point list"

definition ascii :: "string \<Rightarrow> str" where
  "ascii s = map of_char s"

type_synonym entity_dict = "(str \<times> str list) list"

definition wf_dict :: "entity_dict \<Rightarrow> bool" where
  "wf_dict d = distinct (map fst d)"

text \<open>
  \<open>str.upper\<close> replaces every character by its upper-case mapping in the Unicode character
  database, which can be several characters long (\<open>'\<ss>'.upper()\<close> is \<open>'SS'\<close>), whatever stands
  around the character. The database is not part of the program. Its mappings are written
  out here for Basic Latin (up to U+007F) and the Latin-1 Supplement (up to U+00FF), for
  U+0178 (capital y with diaeresis) and for U+1E9E (capital sharp s), which are upper case
  already; \<open>ucd\<close> stands for the mappings of all other code points, and every function that
  upper-cases takes it as its first argument.
\<close>

definition upper_mapping :: "(code_point \<Rightarrow> str) \<Rightarrow> code_point \<Rightarrow> str" where
  "upper_mapping ucd c =
     (if 0x61 \<le> c \<and> c \<le> 0x7A then [c - 0x20]
      else if c < 0x80 then [c]
      else if c = 0xB5 then [0x39C]
      else if c = 0xDF then [0x53, 0x53]
      else if 0xE0 \<le> c \<and> c \<le> 0xFE \<and> c \<noteq> 0xF7 then [c - 0x20]
      else if c = 0xFF then [0x178]
      else if c < 0x100 then [c]
      else if c = 0x178 \<or> c = 0x1E9E then [c]
      else ucd c)"

definition upper :: "(code_point \<Rightarrow> str) \<Rightarrow> str \<Rightarrow> str" where
  "upper ucd s = concat (map (upper_mapping ucd) s)"

section \<open>The scoring functions of the NER notebook\<close>

text \<open>
  \<^verbatim>\<open>
  def flatten_dict(d):
      res = []
      for k, v in d.items():
          assert isinstance(v, list)
          for elt in v:
              res.append(f"__{k.upper()}__::{elt}")
      return res
  \<close>
  The two loops are folds that append to the accumulator \<open>res\<close>. The assertion holds by
  the type of the values.
\<close>

definition flatten_dict :: "(code_point \<Rightarrow> str) \<Rightarrow> entity_dict \<Rightarrow> str list" where
  "flatten_dict ucd d =
     fold (\<lambda>(k, v) res.
             fold (\<lambda>elt res. res @ [ascii ''__'' @ upper ucd k @ ascii ''__::'' @ elt]) v res)
          d []"

text \<open>
  \<^verbatim>\<open>
  def exact_match(predicted, gold):
      return set(flatten_dict(predicted)) == set(flatten_dict(gold))
  \<close>
\<close>

definition exact_match :: "(code_point \<Rightarrow> str) \<Rightarrow> entity_dict \<Rightarrow> entity_dict \<Rightarrow> bool" where
  "exact_match ucd predicted gold =
     (set (flatten_dict ucd predicted) = set (flatten_dict ucd gold))"

text \<open>
  \<open>Counter(xs)\<close> counts the elements of a list into a dictionary, one element at a time;
  \<open>c.get(key, 0)\<close> reads a count, with 0 for a key that is absent.
\<close>

definition Counter :: "'a list \<Rightarrow> ('a \<rightharpoonup> int)" where
  "Counter xs = fold (\<lambda>x m. m(x \<mapsto> (case m x of None \<Rightarrow> 0 | Some c \<Rightarrow> c) + 1)) xs Map.empty"

definition dict_get :: "('a \<rightharpoonup> int) \<Rightarrow> 'a \<Rightarrow> int \<Rightarrow> int" where
  "dict_get m key dflt = (case m key of None \<Rightarrow> dflt | Some c \<Rightarrow> c)"

text \<open>
  \<^verbatim>\<open>
  def jaccard_similarity(predicted, gold):
      target_entities = flatten_dict(gold)
      pred_entities = flatten_dict(predicted)
      target_count = Counter(target_entities)
      pred_count = Counter(pred_entities)
      num = 0
      den = 0
      all_keys = set(target_entities).union(set(pred_entities))
      for key in all_keys:
          num += min(target_count.get(key, 0), pred_count.get(key, 0))
          den += max(target_count.get(key, 0), pred_count.get(key, 0))
      if den == 0:
          return 1
      return num / den
  \<close>
  The loop runs once over each element of the set \<open>all_keys\<close>, in an order Python does not
  fix. \<open>jaccard_loop\<close> is the loop over an enumeration of the keys; the model enumerates
  them without repetition in the order of first occurrence, and \<open>jaccard_loop_order\<close> below
  shows that the order does not matter. The quotient \<open>num / den\<close> of two integers is the
  exact rational number (Python rounds it to the nearest float).
\<close>

definition jaccard_loop ::
  "('a \<rightharpoonup> int) \<Rightarrow> ('a \<rightharpoonup> int) \<Rightarrow> 'a list \<Rightarrow> int \<times> int \<Rightarrow> int \<times> int" where
  "jaccard_loop target_count pred_count all_keys acc =
     fold (\<lambda>key (num, den).
             (num + min (dict_get target_count key 0) (dict_get pred_count key 0),
              den + max (dict_get target_count key 0) (dict_get pred_count key 0)))
          all_keys acc"

definition jaccard_sums :: "(code_point \<Rightarrow> str) \<Rightarrow> entity_dict \<Rightarrow> entity_dict \<Rightarrow> int \<times> int" where
  "jaccard_sums ucd predicted gold =
     (let target_entities = flatten_dict ucd gold;
          pred_entities = flatten_dict ucd predicted;
          target_count = Counter target_entities;
          pred_count = Counter pred_entities;
          all_keys = remdups (target_entities @ pred_entities)
      in jaccard_loop target_count pred_count all_keys (0, 0))"

definition jaccard_similarity :: "(code_point \<Rightarrow> str) \<Rightarrow> entity_dict \<Rightarrow> entity_dict \<Rightarrow> rat" where
  "jaccard_similarity ucd predicted gold =
     (case jaccard_sums ucd predicted gold of
        (num, den) \<Rightarrow> if den = 0 then 1 else of_int num / of_int den)"

text \<open>
  \<^verbatim>\<open>
  def evaluate(response, gold_data):
      predicted = response.output.parsed if response else None
      valid_json = predicted is not None
      matched = exact_match(predicted, gold_data) if predicted else False
      jaccard = jaccard_similarity(predicted, gold_data) if predicted else 0
      return valid_json, matched, jaccard
  \<close>
  A response object is truthy; a dictionary is truthy when it has an item. The record
  holds the fields of an inference response that the notebooks read: \<open>content\<close> are the
  texts of the content blocks of a chat response, \<open>parsed\<close> is \<open>output.parsed\<close> of a JSON
  response, a dictionary or \<open>None\<close>. The type of the dictionary is that of the function
  called: an entity dictionary for \<open>extract_entities\<close>.
\<close>

type_synonym uuid = nat

record 'p inference_response =
  inference_id :: uuid
  episode_id :: uuid
  content :: "string list"
  parsed :: "'p option"

definition evaluate ::
  "(code_point \<Rightarrow> str) \<Rightarrow> entity_dict inference_response option \<Rightarrow> entity_dict
     \<Rightarrow> bool \<times> bool \<times> rat" where
  "evaluate ucd response gold_data =
     (let predicted = (case response of Some r \<Rightarrow> parsed r | None \<Rightarrow> None);
          valid_json = (predicted \<noteq> None);
          matched = (case predicted of
                       Some p \<Rightarrow> if p \<noteq> [] then exact_match ucd p gold_data else False
                     | None \<Rightarrow> False);
          jaccard = (case predicted of
                       Some p \<Rightarrow> if p \<noteq> [] then jaccard_similarity ucd p gold_data else 0
                     | None \<Rightarrow> 0)
      in (valid_json, matched, jaccard))"

section \<open>The scoring functions as the specification describes them\<close>

text \<open>
  The key of an entry is the string \<open>__\<close>, the category name in upper case, \<open>__::\<close> and the
  entity value. A dictionary has the multiset of the keys of its entries, and their set.
\<close>

definition entry_key :: "(code_point \<Rightarrow> str) \<Rightarrow> str \<Rightarrow> str \<Rightarrow> str" where
  "entry_key ucd category val = ascii ''__'' @ upper ucd category @ ascii ''__::'' @ val"

definition tagged_entries :: "(code_point \<Rightarrow> str) \<Rightarrow> entity_dict \<Rightarrow> str multiset" where
  "tagged_entries ucd d = sum_list (map (\<lambda>(k, v). image_mset (entry_key ucd k) (mset v)) d)"

definition tagged_entry_set :: "(code_point \<Rightarrow> str) \<Rightarrow> entity_dict \<Rightarrow> str set" where
  "tagged_entry_set ucd d = {entry_key ucd k e | k v e. (k, v) \<in> set d \<and> e \<in> set v}"

text \<open>
  The similarity of two multisets of keys: the sum over the keys of either of the smaller of
  the two multiplicities, divided by the sum of the larger ones, and 1 when the divisor is 0.
\<close>

definition jaccard_spec :: "'a multiset \<Rightarrow> 'a multiset \<Rightarrow> rat" where
  "jaccard_spec P G =
     (let keys = set_mset P \<union> set_mset G;
          num = (\<Sum>k\<in>keys. min (count P k) (count G k));
          den = (\<Sum>k\<in>keys. max (count P k) (count G k))
      in if den = 0 then 1 else of_nat num / of_nat den)"

text \<open>
  \<open>small_capital c C\<close> says that \<open>c\<close> is a small letter and \<open>C\<close> the capital letter that
  Unicode pairs with it (the lower-case mapping of \<open>C\<close> is \<open>c\<close>), for the letters of Basic
  Latin and of the Latin-1 Supplement: a to z, the letters from U+00E0 to U+00FE with their
  capitals 32 places below, y with diaeresis (U+00FF, U+0178) and sharp s (U+00DF, U+1E9E).
  Two category names differ only in letter case when they have the same length and, at each
  position, the same character or the small and the capital form of one of these letters.
  \<open>recase_key d k k'\<close> renames the key \<open>k\<close> of a dictionary to \<open>k'\<close>: in place when \<open>k'\<close> is
  not a key yet, and otherwise by removing \<open>k\<close> and appending its values to those of \<open>k'\<close>.
  \<open>recase_keys\<close> renames several keys, one after the other.
\<close>

definition small_capital :: "code_point \<Rightarrow> code_point \<Rightarrow> bool" where
  "small_capital c C =
     (0x61 \<le> c \<and> c \<le> 0x7A \<and> C + 0x20 = c
      \<or> 0xE0 \<le> c \<and> c \<le> 0xFE \<and> c \<noteq> 0xF7 \<and> C + 0x20 = c
      \<or> c = 0xFF \<and> C = 0x178
      \<or> c = 0xDF \<and> C = 0x1E9E)"

definition same_letter :: "code_point \<Rightarrow> code_point \<Rightarrow> bool" where
  "same_letter c c' = (c' = c \<or> small_capital c c' \<or> small_capital c' c)"

definition recasing :: "str \<Rightarrow> str \<Rightarrow> bool" where
  "recasing k k' = list_all2 same_letter k k'"

definition recase_key :: "entity_dict \<Rightarrow> str \<Rightarrow> str \<Rightarrow> entity_dict" where
  "recase_key d k k' =
     (case map_of d k of
        None \<Rightarrow> d
      | Some v \<Rightarrow>
          if k' = k then d
          else (case map_of d k' of
                  None \<Rightarrow> map (\<lambda>(a, b). if a = k then (k', b) else (a, b)) d
                | Some v' \<Rightarrow> AList.update k' (v' @ v) (AList.delete k d)))"

definition recase_keys :: "entity_dict \<Rightarrow> (str \<times> str) list \<Rightarrow> entity_dict" where
  "recase_keys d renamings = fold (\<lambda>(k, k') d. recase_key d k k') renamings d"

text \<open>
  For examples: a stand-in for the rest of the database, in which no code point beyond the
  ones written out above has a case.
\<close>

definition caseless :: "code_point \<Rightarrow> str" where
  "caseless c = [c]"

section \<open>The gateway client, exceptions and the effects of a task\<close>

text \<open>
  The gateway is outside the program. A call of \<open>client.inference\<close> either returns a response
  or raises an exception (an instance of \<open>Exception\<close>: an HTTP error, a timeout, an error
  reported by the gateway). A task sees the gateway as a function from the number of
  calls it has made so far and the request to the outcome of the call, so that a call that
  is repeated may fare differently; every property below holds for every such function.
  What a task does besides returning is recorded, in order, in its list of events.
  Signals that are not instances of \<open>Exception\<close> (the cancellation of a task, a keyboard
  interrupt) are not failures of a call; they are not modelled.
\<close>

datatype exn = Exn (exn_type: string) (exn_str: string)

datatype message_content = Text string | Arguments "(string \<times> string) list"

record inference_request =
  function_name :: string
  input :: message_content
  episode :: "uuid option"
  dryrun :: bool
  variant_name :: "string option"

type_synonym 'v client = "nat \<Rightarrow> inference_request \<Rightarrow> exn + 'v inference_response"

datatype event = Call inference_request | Sleep rat | Print string

record effects =
  calls :: nat
  events :: "event list"

definition inference ::
  "'v client \<Rightarrow> inference_request \<Rightarrow> effects \<Rightarrow> (exn + 'v inference_response) \<times> effects" where
  "inference client req s =
     (client (calls s) req, s\<lparr>calls := calls s + 1, events := events s @ [Call req]\<rparr>)"

definition print :: "string \<Rightarrow> effects \<Rightarrow> effects" where
  "print line s = s\<lparr>events := events s @ [Print line]\<rparr>"

definition sleep :: "rat \<Rightarrow> effects \<Rightarrow> effects" where
  "sleep seconds s = s\<lparr>events := events s @ [Sleep seconds]\<rparr>"

section \<open>The retry decorator\<close>

text \<open>
  \<open>@retry(stop=stop_after_attempt(3), wait=wait_random_exponential(multiplier=1, max=10))\<close>
  is the decorator of the tenacity library. The decorated function is called; when it
  returns, that is the result. When it raises and the number of the attempt has reached the
  bound, \<open>RetryError\<close> is raised; otherwise the wrapper sleeps for the time the wait policy
  gives for this attempt and calls the function again. Attempts are numbered from 1.

  \<open>wait_random_exponential\<close> draws the time uniformly between 0 and the smaller of \<open>max\<close>
  and \<open>multiplier * 2 ^ (attempt - 1)\<close>. The draw is outside the program: \<open>rnd attempt\<close> is
  the variate, between 0 and 1, that \<open>random.uniform\<close> scales. Times are exact rationals.
  The text of a \<open>RetryError\<close> describes the last attempt; the model keeps the type of the
  exception of that attempt.
\<close>

definition uniform :: "rat \<Rightarrow> rat \<Rightarrow> rat \<Rightarrow> rat" where
  "uniform a b u = a + (b - a) * u"

definition wait_exponential :: "rat \<Rightarrow> rat \<Rightarrow> nat \<Rightarrow> rat" where
  "wait_exponential multiplier mx attempt_number =
     max 0 (min (multiplier * 2 ^ (attempt_number - 1)) mx)"

definition wait_random_exponential :: "rat \<Rightarrow> rat \<Rightarrow> (nat \<Rightarrow> rat) \<Rightarrow> nat \<Rightarrow> rat" where
  "wait_random_exponential multiplier mx rnd attempt_number =
     uniform 0 (wait_exponential multiplier mx attempt_number) (rnd attempt_number)"

definition RetryError :: "exn \<Rightarrow> exn" where
  "RetryError last_attempt = Exn ''RetryError'' (''RetryError['' @ exn_type last_attempt @ '']'')"

fun retry_attempts ::
  "nat \<Rightarrow> nat \<Rightarrow> (nat \<Rightarrow> rat) \<Rightarrow> (effects \<Rightarrow> (exn + 'a) \<times> effects) \<Rightarrow> effects
     \<Rightarrow> (exn + 'a) \<times> effects" where
  "retry_attempts remaining attempt_number wait f s =
     (case f s of
        (Inr r, s') \<Rightarrow> (Inr r, s')
      | (Inl e, s') \<Rightarrow>
          (case remaining of
             0 \<Rightarrow> (Inl (RetryError e), s')
           | Suc m \<Rightarrow> retry_attempts m (Suc attempt_number) wait f (sleep (wait attempt_number) s')))"

definition retry ::
  "nat \<Rightarrow> (nat \<Rightarrow> rat) \<Rightarrow> (effects \<Rightarrow> (exn + 'a) \<times> effects) \<Rightarrow> effects \<Rightarrow> (exn + 'a) \<times> effects" where
  "retry stop_after_attempt wait f s = retry_attempts (stop_after_attempt - 1) 1 wait f s"

section \<open>Entity extraction in the NER notebook\<close>

text \<open>
  \<^verbatim>\<open>
  @retry(stop=stop_after_attempt(3), wait=wait_random_exponential(multiplier=1, max=10))
  async def _get_entities(text, client, variant_name=None, dryrun=False):
      return await client.inference(
          function_name="extract_entities",
          input={"messages": [{"role": "user", "content": text}]},
          dryrun=dryrun,
          variant_name=variant_name,
      )

  async def get_entities(text, client, variant_name=None, dryrun=False):
      try:
          return await _get_entities(text, client, variant_name, dryrun)
      except Exception as e:
          print(f"Error: {e}")
          return None
  \<close>
  \<open>inner_get_entities\<close> is \<open>_get_entities\<close>.
\<close>

definition extract_entities_request :: "string \<Rightarrow> string option \<Rightarrow> bool \<Rightarrow> inference_request" where
  "extract_entities_request text variant dry =
     \<lparr>function_name = ''extract_entities'', input = Text text, episode = None,
      dryrun = dry, variant_name = variant\<rparr>"

definition inner_get_entities ::
  "string \<Rightarrow> 'v client \<Rightarrow> (nat \<Rightarrow> rat) \<Rightarrow> string option \<Rightarrow> bool \<Rightarrow> effects
     \<Rightarrow> (exn + 'v inference_response) \<times> effects" where
  "inner_get_entities text client rnd variant dry s =
     retry 3 (wait_random_exponential 1 10 rnd)
       (inference client (extract_entities_request text variant dry)) s"

definition get_entities ::
  "string \<Rightarrow> 'v client \<Rightarrow> (nat \<Rightarrow> rat) \<Rightarrow> string option \<Rightarrow> bool \<Rightarrow> effects
     \<Rightarrow> 'v inference_response option \<times> effects" where
  "get_entities text client rnd variant dry s =
     (case inner_get_entities text client rnd variant dry s of
        (Inr r, s') \<Rightarrow> (Some r, s')
      | (Inl e, s') \<Rightarrow> (None, print (''Error: '' @ exn_str e) s'))"

section \<open>Writing and grading a haiku\<close>

text \<open>
  \<open>str.strip\<close> removes the white space at both ends, \<open>str.split("\n")\<close> cuts at every
  line feed (and returns one empty string for the empty string), \<open>"\n".join\<close> puts the
  lines together again, and \<open>lines[-3:]\<close> are the last three lines, or all when there are
  fewer.
\<close>

definition is_space :: "char \<Rightarrow> bool" where
  "is_space c = ((of_char c :: nat) \<in> {9, 10, 11, 12, 13, 28, 29, 30, 31, 32})"

definition strip :: "string \<Rightarrow> string" where
  "strip s = rev (dropWhile is_space (rev (dropWhile is_space s)))"

fun split :: "char \<Rightarrow> string \<Rightarrow> string list" where
  "split sep [] = [[]]"
| "split sep (c # cs) =
     (if c = sep then [] # split sep cs
      else (case split sep cs of
              [] \<Rightarrow> [[c]]
            | w # ws \<Rightarrow> (c # w) # ws))"

fun join :: "string \<Rightarrow> string list \<Rightarrow> string" where
  "join sep [] = []"
| "join sep [x] = x"
| "join sep (x # y # ys) = x @ sep @ join sep (y # ys)"

definition last_three :: "'a list \<Rightarrow> 'a list" where
  "last_three xs = drop (length xs - 3) xs"

text \<open>
  \<^verbatim>\<open>
  async def write_grade_haiku(topic, client):
      try:
          haiku_result = await client.inference(
              function_name="write_haiku",
              input={"messages": [{"role": "user",
                                   "content": [{"type": "text", "value": {"topic": topic}}]}]},
          )
      except Exception as e:
          print(e)
          return None
      haiku_text = haiku_result.content[0].text
      haiku_lines = haiku_text.strip().split("\n")
      haiku_text = "\n".join(haiku_lines[-3:])
      inference_id = haiku_result.inference_id
      try:
          judge_result = await client.inference(
              function_name="judge_haiku",
              input={"messages": [{"role": "user",
                                   "content": [{"type": "text",
                                                "value": {"topic": topic, "haiku": haiku_text}}]}]},
              episode_id=haiku_result.episode_id,
          )
      except Exception as e:
          print(f"Error occurred: {type(e).__name__}: {e}")
          return None
      score = judge_result.output.parsed["score"]
      return haiku_text, score, inference_id
  \<close>
  Outside the two \<open>try\<close> blocks the function can raise: \<open>content[0]\<close> on a response with no
  content block, and \<open>parsed["score"]\<close> when \<open>parsed\<close> is \<open>None\<close> or has no such key. These
  exceptions leave the function, so its result is an exception, \<open>None\<close> or the triple.
\<close>

definition write_haiku_request :: "string \<Rightarrow> inference_request" where
  "write_haiku_request topic =
     \<lparr>function_name = ''write_haiku'', input = Arguments [(''topic'', topic)], episode = None,
      dryrun = False, variant_name = None\<rparr>"

definition judge_haiku_request :: "string \<Rightarrow> string \<Rightarrow> uuid \<Rightarrow> inference_request" where
  "judge_haiku_request topic haiku_text ep =
     \<lparr>function_name = ''judge_haiku'',
      input = Arguments [(''topic'', topic), (''haiku'', haiku_text)], episode = Some ep,
      dryrun = False, variant_name = None\<rparr>"

definition write_grade_haiku ::
  "string \<Rightarrow> (string \<times> bool) list client \<Rightarrow> effects \<Rightarrow> (exn + (string \<times> bool \<times> uuid) option) \<times> effects" where
  "write_grade_haiku topic client s =
     (case inference client (write_haiku_request topic) s of
        (Inl e, s1) \<Rightarrow> (Inr None, print (exn_str e) s1)
      | (Inr haiku_result, s1) \<Rightarrow>
          (case content haiku_result of
             [] \<Rightarrow> (Inl (Exn ''IndexError'' ''list index out of range''), s1)
           | first_text # _ \<Rightarrow>
               (let haiku_lines = split (CHR 0x0A) (strip first_text);
                    haiku_text = join [CHR 0x0A] (last_three haiku_lines);
                    inference_id = inference_id haiku_result
                in case inference client
                          (judge_haiku_request topic haiku_text (episode_id haiku_result)) s1 of
                     (Inl e, s2) \<Rightarrow>
                       (Inr None,
                        print (''Error occurred: '' @ exn_type e @ '': '' @ exn_str e) s2)
                   | (Inr judge_result, s2) \<Rightarrow>
                       (case parsed judge_result of
                          None \<Rightarrow>
                            (Inl (Exn ''TypeError'' ''NoneType object is not subscriptable''), s2)
                        | Some p \<Rightarrow>
                            (case map_of p ''score'' of
                               None \<Rightarrow> (Inl (Exn ''KeyError'' ''score''), s2)
                             | Some score \<Rightarrow> (Inr (Some (haiku_text, score, inference_id)), s2))))))"

section \<open>Gathering a batch\<close>

text \<open>
  \<open>tqdm_asyncio.gather(*fs)\<close> numbers the awaitables, awaits them in the order in which they
  complete, collecting each number with its result, and returns the results sorted by number:
  \<^verbatim>\<open>
  async def wrap_awaitable(i, f):
      return i, await f
  ifs = [wrap_awaitable(i, f) for i, f in enumerate(fs)]
  res = [await f for f in cls.as_completed(ifs, ...)]
  return [i for _, i in sorted(res)]
  \<close>
  The order of completion is the scheduler's: it is a parameter, a list of the numbers of
  the tasks. The tasks share no state, so each has its outcome whatever the order; an
  exception of a task leaves \<open>gather\<close> when its turn comes.
\<close>

fun as_completed :: "nat list \<Rightarrow> (exn + 'a) list \<Rightarrow> (nat \<times> 'a) list \<Rightarrow> exn + (nat \<times> 'a) list" where
  "as_completed [] outcomes res = Inr res"
| "as_completed (i # order) outcomes res =
     (if i < length outcomes
      then (case outcomes ! i of
              Inl e \<Rightarrow> Inl e
            | Inr r \<Rightarrow> as_completed order outcomes (res @ [(i, r)]))
      else as_completed order outcomes res)"

definition gather :: "nat list \<Rightarrow> (exn + 'a) list \<Rightarrow> exn + 'a list" where
  "gather order outcomes =
     (case as_completed order outcomes [] of
        Inl e \<Rightarrow> Inl e
      | Inr res \<Rightarrow> Inr (map snd (sort_key fst res)))"

definition empty_effects :: effects where
  "empty_effects = \<lparr>calls = 0, events = []\<rparr>"

text \<open>
  The batches of the two notebooks. Task \<open>i\<close> talks to the gateway through \<open>clients i\<close> and
  draws its waiting times from \<open>rnds i\<close>.
  \<^verbatim>\<open>
  async def make_inference(text, client):
      async with semaphore:
          return await get_entities(text, client)

  responses = await tqdm_asyncio.gather(
      *[make_inference(text, tensorzero_client)
        for text in train_df["input"][:NUM_TRAIN_PREDICTIONS]])
  \<close>
  \<^verbatim>\<open>
  tasks = [ratelimited_write_grade_haiku(noun, tensorzero_client)
           for noun in nouns[:num_requests]]
  results = await tqdm_asyncio.gather(*tasks)
  \<close>
  The semaphore delays a task and does not change what it returns; it is modelled with the
  scheduling of the tasks further below.
\<close>

definition make_inference ::
  "string \<Rightarrow> 'v client \<Rightarrow> (nat \<Rightarrow> rat) \<Rightarrow> 'v inference_response option" where
  "make_inference text client rnd = fst (get_entities text client rnd None False empty_effects)"

definition NUM_TRAIN_PREDICTIONS :: nat where
  "NUM_TRAIN_PREDICTIONS = 100"

definition train_responses ::
  "(nat \<Rightarrow> 'v client) \<Rightarrow> (nat \<Rightarrow> nat \<Rightarrow> rat) \<Rightarrow> nat list \<Rightarrow> (string \<times> entity_dict) list
     \<Rightarrow> exn + 'v inference_response option list" where
  "train_responses clients rnds order train_df =
     gather order
       (map (\<lambda>(i, text). Inr (make_inference text (clients i) (rnds i)))
            (enumerate 0 (take NUM_TRAIN_PREDICTIONS (map fst train_df))))"

definition ratelimited_write_grade_haiku ::
  "string \<Rightarrow> (string \<times> bool) list client \<Rightarrow> exn + (string \<times> bool \<times> uuid) option" where
  "ratelimited_write_grade_haiku noun client = fst (write_grade_haiku noun client empty_effects)"

definition num_requests :: nat where
  "num_requests = 500"

definition haiku_results ::
  "(nat \<Rightarrow> (string \<times> bool) list client) \<Rightarrow> nat list \<Rightarrow> string list \<Rightarrow> exn + (string \<times> bool \<times> uuid) option list" where
  "haiku_results clients order nouns =
     gather order
       (map (\<lambda>(i, noun). ratelimited_write_grade_haiku noun (clients i))
            (enumerate 0 (take num_requests nouns)))"

text \<open>
  \<^verbatim>\<open>
  [evaluate_send_feedback(response, gold)
   for response, gold in zip(responses, train_df["output"][:NUM_TRAIN_PREDICTIONS])
   if response is not None]
  \<close>
\<close>

definition feedback_pairs ::
  "'v inference_response option list \<Rightarrow> (string \<times> entity_dict) list
     \<Rightarrow> ('v inference_response option \<times> entity_dict) list" where
  "feedback_pairs responses train_df =
     filter (\<lambda>(response, gold). response \<noteq> None)
       (zip responses (take NUM_TRAIN_PREDICTIONS (map snd train_df)))"

section \<open>The retry policy as the specification describes it\<close>

text \<open>
  \<open>failed_attempts client req start bound\<close> is the number of calls that raise before the
  first one that returns, among the \<open>bound\<close> calls from call number \<open>start\<close> on.
  \<open>attempts_trace req waits\<close> are the events of attempts separated by the given waits.
\<close>

fun attempts_trace :: "inference_request \<Rightarrow> rat list \<Rightarrow> event list" where
  "attempts_trace req [] = [Call req]"
| "attempts_trace req (w # ws) = Call req # Sleep w # attempts_trace req ws"

definition failed_attempts :: "'v client \<Rightarrow> inference_request \<Rightarrow> nat \<Rightarrow> nat \<Rightarrow> nat" where
  "failed_attempts client req start bound =
     length (takeWhile (\<lambda>k. isl (client (start + k) req)) [0..<bound])"


section \<open>Example gateways and data\<close>

text \<open>
  A gateway that times out on every call, one that answers from the third call on, one that
  writes a haiku and then fails, and a data frame of two rows, as pairs of input and gold
  output.
\<close>

definition timeout_client :: "'v client" where
  "timeout_client n req = Inl (Exn ''TimeoutError'' ''timed out'')"

definition flaky_client :: "entity_dict client" where
  "flaky_client n req =
     (if n < 2 then Inl (Exn ''TimeoutError'' ''timed out'')
      else Inr \<lparr>inference_id = 5, episode_id = 6, content = [],
                parsed = Some [(ascii ''person'', [ascii ''Ann''])]\<rparr>)"


definition judge_down_client :: "(string \<times> bool) list client" where
  "judge_down_client n req =
     (if n = 0
      then Inr \<lparr>inference_id = 11, episode_id = 12,
                content = [''Thinking.'' @ [CHR 0x0A] @ ''a'' @ [CHR 0x0A] @ ''b'' @ [CHR 0x0A] @ ''c''],
                parsed = None\<rparr>
      else Inl (Exn ''TensorZeroError'' ''502''))"


definition example_df :: "(string \<times> entity_dict) list" where
  "example_df = [(''Rome is old'', [(ascii ''location'', [ascii ''Rome''])]),
                 (''Ann left'', [(ascii ''person'', [ascii ''Ann''])])]"

definition example_clients :: "nat \<Rightarrow> entity_dict client" where
  "example_clients i = (if i = 0 then timeout_client else flaky_client)"

section \<open>The analytics queries\<close>

text \<open>
  The tables of the database are lists of rows with the columns that the queries read. A
  query result has the selected columns \<open>variant_name\<close>, \<open>input\<close>, \<open>output\<close> and \<open>value\<close>.
  \<open>FROM T1 JOIN T2 ON c\<close> gives the pairs of rows that satisfy \<open>c\<close>, \<open>WHERE\<close> keeps the pairs
  that satisfy its condition, and \<open>SELECT\<close> projects them.
\<close>

record inference_row =
  i_id :: uuid
  i_function_name :: string
  i_variant_name :: string
  i_input :: string
  i_output :: string

record 'a feedback_row =
  f_target_id :: uuid
  f_metric_name :: string
  f_value :: 'a

type_synonym 'a result_row = "string \<times> string \<times> string \<times> 'a"

definition join_on ::
  "('a \<Rightarrow> 'b \<Rightarrow> bool) \<Rightarrow> 'a list \<Rightarrow> 'b list \<Rightarrow> ('a \<times> 'b) list" where
  "join_on c t1 t2 = filter (\<lambda>(r1, r2). c r1 r2) (List.product t1 t2)"

definition select_columns :: "(inference_row \<times> 'a feedback_row) list \<Rightarrow> 'a result_row list" where
  "select_columns rows = map (\<lambda>(i, f). (i_variant_name i, i_input i, i_output i, f_value f)) rows"

text \<open>
  The query for a boolean metric of the NER notebook (run with \<open>metric_name = "exact_match"\<close>):
  \<^verbatim>\<open>
  SELECT i.variant_name, i.input, i.output, b.value
  FROM JsonInference i
  JOIN BooleanMetricFeedback b ON i.id = b.target_id
  WHERE i.function_name = 'extract_entities'
    AND b.metric_name = %(metric_name)s
  \<close>
\<close>

definition ner_boolean_query ::
  "string \<Rightarrow> inference_row list \<Rightarrow> bool feedback_row list \<Rightarrow> bool result_row list" where
  "ner_boolean_query metric_name JsonInference BooleanMetricFeedback =
     select_columns
       (filter (\<lambda>(i, b). i_function_name i = ''extract_entities'' \<and> f_metric_name b = metric_name)
          (join_on (\<lambda>i b. i_id i = f_target_id b) JsonInference BooleanMetricFeedback))"

text \<open>
  The query for the Jaccard similarity of the NER notebook:
  \<^verbatim>\<open>
  SELECT i.variant_name, i.input, i.output, f.value
  FROM JsonInference i
  JOIN FloatMetricFeedback f ON i.id = f.target_id
  WHERE i.function_name = 'extract_entities'
    AND f.metric_name = 'jaccard_similarity'
  \<close>
\<close>

definition ner_float_query ::
  "inference_row list \<Rightarrow> rat feedback_row list \<Rightarrow> rat result_row list" where
  "ner_float_query JsonInference FloatMetricFeedback =
     select_columns
       (filter (\<lambda>(i, f). i_function_name i = ''extract_entities''
                          \<and> f_metric_name f = ''jaccard_similarity'')
          (join_on (\<lambda>i f. i_id i = f_target_id f) JsonInference FloatMetricFeedback))"

text \<open>
  The query of the haiku notebook:
  \<^verbatim>\<open>
  SELECT i.variant_name, i.input, i.output, b.value
  FROM ChatInference i
  JOIN BooleanMetricFeedback b ON i.id = b.target_id
  WHERE i.function_name = 'write_haiku'
  \<close>
\<close>

definition haiku_query ::
  "inference_row list \<Rightarrow> bool feedback_row list \<Rightarrow> bool result_row list" where
  "haiku_query ChatInference BooleanMetricFeedback =
     select_columns
       (filter (\<lambda>(i, b). i_function_name i = ''write_haiku'')
          (join_on (\<lambda>i b. i_id i = f_target_id b) ChatInference BooleanMetricFeedback))"

text \<open>
  \<open>df.groupby("variant_name")["value"].mean()\<close> has one entry for each variant name of the
  frame: the mean of the values of its rows. \<open>num\<close> reads a value as a number (a boolean
  counts as 1 or 0); the mean is the exact rational.
\<close>

definition groupby_mean :: "('a \<Rightarrow> rat) \<Rightarrow> 'a result_row list \<Rightarrow> (string \<rightharpoonup> rat)" where
  "groupby_mean num df variant =
     (let vals = map (\<lambda>(vn, inp, outp, v). num v)
                   (filter (\<lambda>(vn, inp, outp, v). vn = variant) df)
      in if vals = [] then None else Some (sum_list vals / of_nat (length vals)))"

definition bool_value :: "bool \<Rightarrow> rat" where
  "bool_value b = (if b then 1 else 0)"

section \<open>The queries as the specification describes them\<close>

text \<open>
  The rows of the join of the two tables on the inference identifier, filtered by function
  name and metric name; and the rows of the join filtered by function name only.
\<close>

definition joined_filtered ::
  "string \<Rightarrow> string \<Rightarrow> inference_row list \<Rightarrow> 'a feedback_row list \<Rightarrow> 'a result_row set" where
  "joined_filtered fname mname inferences feedback =
     {(i_variant_name i, i_input i, i_output i, f_value f) | i f.
        i \<in> set inferences \<and> f \<in> set feedback \<and> i_id i = f_target_id f
        \<and> i_function_name i = fname \<and> f_metric_name f = mname}"

definition joined_by_function ::
  "string \<Rightarrow> inference_row list \<Rightarrow> 'a feedback_row list \<Rightarrow> 'a result_row set" where
  "joined_by_function fname inferences feedback =
     {(i_variant_name i, i_input i, i_output i, f_value f) | i f.
        i \<in> set inferences \<and> f \<in> set feedback \<and> i_id i = f_target_id f
        \<and> i_function_name i = fname}"

definition variant_rows :: "string \<Rightarrow> 'a result_row list \<Rightarrow> 'a result_row list" where
  "variant_rows variant df = filter (\<lambda>row. fst row = variant) df"

text \<open>A database in which an inference of \<open>write_haiku\<close> has feedback for two boolean metrics.\<close>

definition example_inferences :: "inference_row list" where
  "example_inferences =
     [\<lparr>i_id = 1, i_function_name = ''write_haiku'', i_variant_name = ''initial_prompt'',
       i_input = ''moon'', i_output = ''a haiku''\<rparr>]"

definition example_feedback :: "bool feedback_row list" where
  "example_feedback =
     [\<lparr>f_target_id = 1, f_metric_name = ''haiku_score'', f_value = True\<rparr>,
      \<lparr>f_target_id = 1, f_metric_name = ''thumbs_up'', f_value = False\<rparr>]"

section \<open>Scheduling: tasks and the semaphore\<close>

text \<open>
  The tasks of a batch run on one event loop and are interleaved where they await. The
  state of the scheduler is the value of the semaphore and, for each task, the place where
  it stands. \<open>async with semaphore\<close> acquires the semaphore on entry, which takes a value
  above 0 and lowers it by one, and releases it on exit, however the block is left, which
  raises the value by one.
  \<^verbatim>\<open>
  MAX_CONCURRENT_REQUESTS = 20
  semaphore = asyncio.Semaphore(MAX_CONCURRENT_REQUESTS)

  async def make_inference(text, client):
      async with semaphore:
          return await get_entities(text, client)

  async def evaluate_send_feedback(response, gold_data):
      valid_json, matched, jaccard = evaluate(response, gold_data)
      async with semaphore:
          await asyncio.gather(
              tensorzero_client.feedback(metric_name="valid_json", ...),
              tensorzero_client.feedback(metric_name="exact_match", ...),
              tensorzero_client.feedback(metric_name="jaccard_similarity", ...),
              tensorzero_client.feedback(metric_name="demonstration", ...),
          )
  \<close>
  \<^verbatim>\<open>
  max_concurrent_requests = 50
  semaphore = asyncio.Semaphore(max_concurrent_requests)

  async def ratelimited_write_grade_haiku(noun, client):
      async with semaphore:
          return await write_grade_haiku(noun, client)
  \<close>
\<close>

definition MAX_CONCURRENT_REQUESTS :: nat where
  "MAX_CONCURRENT_REQUESTS = 20"

definition max_concurrent_requests :: nat where
  "max_concurrent_requests = 50"

datatype task_kind = Make_inference | Ratelimited_write_grade_haiku | Evaluate_send_feedback

text \<open>
  Where a task stands: before the \<open>async with\<close>; in attempt \<open>k\<close> of \<open>_get_entities\<close>, with
  the inference call in flight; asleep after the failed attempt \<open>k\<close>; awaiting the first or
  the second inference call of \<open>write_grade_haiku\<close>; awaiting \<open>asyncio.gather\<close> with \<open>k\<close> of
  the four feedback calls in flight; or after the \<open>async with\<close>. \<open>asyncio.gather\<close> starts the
  four calls together; when one of them raises, \<open>gather\<close> raises at once and does not cancel
  the others, so a task can leave the block with calls of its own still in flight:
  \<open>Finished k\<close> has \<open>k\<close> of them.
\<close>

datatype pc =
    Waiting
  | Attempt nat
  | Backoff nat
  | Writing
  | Judging
  | Sending nat
  | Finished nat

datatype sem_action = Acquire | Release | Internal

inductive task_step :: "task_kind \<Rightarrow> pc \<Rightarrow> sem_action \<Rightarrow> pc \<Rightarrow> bool" where
  mi_enter: "task_step Make_inference Waiting Acquire (Attempt 1)"
| mi_returned: "task_step Make_inference (Attempt k) Release (Finished 0)"
| mi_failed: "k < 3 \<Longrightarrow> task_step Make_inference (Attempt k) Internal (Backoff k)"
| mi_woke: "task_step Make_inference (Backoff k) Internal (Attempt (Suc k))"
| mi_gave_up: "task_step Make_inference (Attempt 3) Release (Finished 0)"
| wg_enter: "task_step Ratelimited_write_grade_haiku Waiting Acquire Writing"
| wg_write_failed: "task_step Ratelimited_write_grade_haiku Writing Release (Finished 0)"
| wg_written: "task_step Ratelimited_write_grade_haiku Writing Internal Judging"
| wg_judged: "task_step Ratelimited_write_grade_haiku Judging Release (Finished 0)"
| fb_enter: "task_step Evaluate_send_feedback Waiting Acquire (Sending 4)"
| fb_one_sent: "task_step Evaluate_send_feedback (Sending (Suc (Suc k))) Internal (Sending (Suc k))"
| fb_all_sent: "task_step Evaluate_send_feedback (Sending (Suc 0)) Release (Finished 0)"
| fb_one_failed: "task_step Evaluate_send_feedback (Sending (Suc k)) Release (Finished k)"
| fb_late_sent: "task_step Evaluate_send_feedback (Finished (Suc k)) Internal (Finished k)"

record sched =
  sem :: nat
  pcs :: "pc list"

inductive step :: "task_kind \<Rightarrow> sched \<Rightarrow> sched \<Rightarrow> bool" where
  acquire:
    "i < length (pcs st) \<Longrightarrow> task_step kind (pcs st ! i) Acquire p \<Longrightarrow> 0 < sem st \<Longrightarrow>
       step kind st \<lparr>sem = sem st - 1, pcs = (pcs st)[i := p]\<rparr>"
| release:
    "i < length (pcs st) \<Longrightarrow> task_step kind (pcs st ! i) Release p \<Longrightarrow>
       step kind st \<lparr>sem = sem st + 1, pcs = (pcs st)[i := p]\<rparr>"
| internal:
    "i < length (pcs st) \<Longrightarrow> task_step kind (pcs st ! i) Internal p \<Longrightarrow>
       step kind st \<lparr>sem = sem st, pcs = (pcs st)[i := p]\<rparr>"

definition initial :: "nat \<Rightarrow> nat \<Rightarrow> sched" where
  "initial limit n = \<lparr>sem = limit, pcs = replicate n Waiting\<rparr>"

definition reachable :: "task_kind \<Rightarrow> nat \<Rightarrow> nat \<Rightarrow> sched \<Rightarrow> bool" where
  "reachable kind limit n st = (step kind)\<^sup>*\<^sup>* (initial limit n) st"

text \<open>
  The calls to the gateway that a task has in flight, whether it is inside the
  \<open>async with\<close> block, and the sums over the tasks.
\<close>

fun calls_in_flight :: "pc \<Rightarrow> nat" where
  "calls_in_flight Waiting = 0"
| "calls_in_flight (Attempt k) = 1"
| "calls_in_flight (Backoff k) = 0"
| "calls_in_flight Writing = 1"
| "calls_in_flight Judging = 1"
| "calls_in_flight (Sending k) = k"
| "calls_in_flight (Finished k) = k"

fun holding :: "pc \<Rightarrow> bool" where
  "holding Waiting = False"
| "holding (Finished k) = False"
| "holding p = True"

definition in_flight :: "sched \<Rightarrow> nat" where
  "in_flight st = sum_list (map calls_in_flight (pcs st))"

definition holders :: "sched \<Rightarrow> nat" where
  "holders st = length (filter holding (pcs st))"

definition in_flight_of_holders :: "sched \<Rightarrow> nat" where
  "in_flight_of_holders st = sum_list (map calls_in_flight (filter holding (pcs st)))"

text \<open>The places that a task of each kind can stand at.\<close>

fun pc_of_kind :: "task_kind \<Rightarrow> pc \<Rightarrow> bool" where
  "pc_of_kind kind Waiting = True"
| "pc_of_kind kind (Attempt k) = (kind = Make_inference)"
| "pc_of_kind kind (Backoff k) = (kind = Make_inference)"
| "pc_of_kind kind Writing = (kind = Ratelimited_write_grade_haiku)"
| "pc_of_kind kind Judging = (kind = Ratelimited_write_grade_haiku)"
| "pc_of_kind kind (Sending k) = (kind = Evaluate_send_feedback \<and> k \<le> 4)"
| "pc_of_kind kind (Finished k) = (k = 0 \<or> kind = Evaluate_send_feedback \<and> k \<le> 3)"

text \<open>
  The place of a task that has just entered its \<open>async with\<close> block, and the state in which
  the first \<open>k\<close> of \<open>n\<close> tasks have entered and no task has moved on.
\<close>

fun entered :: "task_kind \<Rightarrow> pc" where
  "entered Make_inference = Attempt 1"
| "entered Ratelimited_write_grade_haiku = Writing"
| "entered Evaluate_send_feedback = Sending 4"

definition entered_state :: "task_kind \<Rightarrow> nat \<Rightarrow> nat \<Rightarrow> nat \<Rightarrow> sched" where
  "entered_state kind limit n k =
     \<lparr>sem = limit - k, pcs = replicate k (entered kind) @ replicate (n - k) Waiting\<rparr>"

text \<open>
  What holds of every state of the scheduler: the value of the semaphore and the number of
  tasks inside the block add up to the size of the semaphore, and every task stands at a
  place of its kind.
\<close>

definition sched_inv :: "task_kind \<Rightarrow> nat \<Rightarrow> sched \<Rightarrow> bool" where
  "sched_inv kind limit st = (sem st + holders st = limit \<and> list_all (pc_of_kind kind) (pcs st))"

section \<open>Properties of the scoring functions\<close>

subsection \<open>The flattened entries\<close>

lemma inner_fold_append:
  "fold (\<lambda>elt res. res @ [f elt]) v res = res @ map f v"
  by (induction v arbitrary: res) simp_all

lemma outer_fold_append:
  "fold (\<lambda>(k, v) res. fold (\<lambda>elt res. res @ [f k elt]) v res) d res
     = res @ concat (map (\<lambda>(k, v). map (f k) v) d)"
  by (induction d arbitrary: res) (simp_all add: inner_fold_append split: prod.splits)

lemma flatten_dict_concat:
  "flatten_dict ucd d = concat (map (\<lambda>(k, v). map (\<lambda>elt. ascii ''__'' @ upper ucd k @ ascii ''__::'' @ elt) v) d)"
  unfolding flatten_dict_def
  using outer_fold_append [of "\<lambda>k elt. ascii ''__'' @ upper ucd k @ ascii ''__::'' @ elt" d "[]"] by simp

lemma mset_flatten_dict: "mset (flatten_dict ucd d) = tagged_entries ucd d"
  unfolding flatten_dict_concat tagged_entries_def
  by (induction d) (auto simp: entry_key_def)

lemma set_flatten_dict: "set (flatten_dict ucd d) = tagged_entry_set ucd d"
  unfolding flatten_dict_concat tagged_entry_set_def
  by (auto simp: entry_key_def)

subsection \<open>The counters and the loop over the keys\<close>

lemma Counter_fold_get:
  "dict_get (fold (\<lambda>x m. m(x \<mapsto> (case m x of None \<Rightarrow> 0 | Some c \<Rightarrow> c) + 1)) xs m) k 0
     = dict_get m k 0 + int (count (mset xs) k)"
  by (induction xs arbitrary: m) (simp_all add: dict_get_def)

lemma Counter_get: "dict_get (Counter xs) k 0 = int (count (mset xs) k)"
  unfolding Counter_def using Counter_fold_get [of xs Map.empty k] by (simp add: dict_get_def)

lemma jaccard_loop_sum_list:
  "jaccard_loop tc pc ks (n, d) =
     (n + sum_list (map (\<lambda>k. min (dict_get tc k 0) (dict_get pc k 0)) ks),
      d + sum_list (map (\<lambda>k. max (dict_get tc k 0) (dict_get pc k 0)) ks))"
  unfolding jaccard_loop_def
  by (induction ks arbitrary: n d) simp_all

lemma jaccard_loop_sum:
  assumes "distinct ks"
  shows "jaccard_loop tc pc ks (n, d) =
     (n + (\<Sum>k\<in>set ks. min (dict_get tc k 0) (dict_get pc k 0)),
      d + (\<Sum>k\<in>set ks. max (dict_get tc k 0) (dict_get pc k 0)))"
  using assms by (simp add: jaccard_loop_sum_list sum_list_distinct_conv_sum_set)

text \<open>The loop gives the same sums in whatever order it visits the set of keys.\<close>

lemma jaccard_loop_order:
  "distinct ks \<Longrightarrow> distinct ks' \<Longrightarrow> set ks = set ks' \<Longrightarrow>
     jaccard_loop tc pc ks acc = jaccard_loop tc pc ks' acc"
  by (cases acc) (simp add: jaccard_loop_sum)

lemma jaccard_sums_eq:
  "jaccard_sums ucd predicted gold =
     (int (\<Sum>k\<in>set_mset (tagged_entries ucd predicted) \<union> set_mset (tagged_entries ucd gold).
             min (count (tagged_entries ucd predicted) k) (count (tagged_entries ucd gold) k)),
      int (\<Sum>k\<in>set_mset (tagged_entries ucd predicted) \<union> set_mset (tagged_entries ucd gold).
             max (count (tagged_entries ucd predicted) k) (count (tagged_entries ucd gold) k)))"
proof -
  have keys: "set (flatten_dict ucd gold) \<union> set (flatten_dict ucd predicted)
      = set_mset (tagged_entries ucd predicted) \<union> set_mset (tagged_entries ucd gold)"
    by (auto simp flip: mset_flatten_dict)
  show ?thesis
    unfolding jaccard_sums_def Let_def
    by (simp add: jaccard_loop_sum keys Counter_get mset_flatten_dict min.commute max.commute
        flip: of_nat_min of_nat_max)
qed

lemma jaccard_similarity_mset:
  "jaccard_similarity ucd p g
     = (if (\<Sum>k\<in>set_mset (tagged_entries ucd p) \<union> set_mset (tagged_entries ucd g).
              max (count (tagged_entries ucd p) k) (count (tagged_entries ucd g) k)) = 0
        then 1
        else of_nat (\<Sum>k\<in>set_mset (tagged_entries ucd p) \<union> set_mset (tagged_entries ucd g).
                       min (count (tagged_entries ucd p) k) (count (tagged_entries ucd g) k))
           / of_nat (\<Sum>k\<in>set_mset (tagged_entries ucd p) \<union> set_mset (tagged_entries ucd g).
                       max (count (tagged_entries ucd p) k) (count (tagged_entries ucd g) k)))"
  unfolding jaccard_similarity_def jaccard_sums_eq
  by (simp only: prod.case of_int_of_nat_eq of_nat_eq_0_iff)

lemma jaccard_den_zero_iff:
  "snd (jaccard_sums ucd predicted gold) = 0
     \<longleftrightarrow> flatten_dict ucd predicted = [] \<and> flatten_dict ucd gold = []"
proof -
  let ?P = "tagged_entries ucd predicted" and ?G = "tagged_entries ucd gold"
  have "(\<Sum>k\<in>set_mset ?P \<union> set_mset ?G. max (count ?P k) (count ?G k)) = 0
          \<longleftrightarrow> ?P = {#} \<and> ?G = {#}"
    by (auto simp: multiset_eq_iff)
  then show ?thesis
    unfolding jaccard_sums_eq by (simp flip: mset_flatten_dict del: of_nat_sum)
qed

subsection \<open>The two scores against their description\<close>

text \<open>
  C1. For all dictionaries \<open>predicted\<close> and \<open>gold\<close>, \<open>jaccard_similarity\<close> is the sum, over
  the keys of either multiset of flattened entries, of the smaller of the two multiplicities,
  divided by the sum of the larger ones, and 1 when that divisor is 0. The key of an entry
  is \<open>__\<close>, the category in upper case, \<open>__::\<close> and the entity value.
\<close>

theorem jaccard_similarity_spec:
  "jaccard_similarity ucd predicted gold
     = jaccard_spec (tagged_entries ucd predicted) (tagged_entries ucd gold)"
  unfolding jaccard_spec_def Let_def by (rule jaccard_similarity_mset)

lemma jaccard_similarity_example:
  "jaccard_similarity caseless [(ascii ''per'', [ascii ''Ann'', ascii ''Bob''])] [(ascii ''PER'', [ascii ''Ann'', ascii ''Ann''])] = 1 / 3"
  by code_simp

text \<open>
  C2. \<open>exact_match ucd predicted gold\<close> is true exactly when the two dictionaries have the same
  set of tagged entries.
\<close>

theorem exact_match_spec:
  "exact_match ucd predicted gold \<longleftrightarrow> tagged_entry_set ucd predicted = tagged_entry_set ucd gold"
  by (simp add: exact_match_def set_flatten_dict)

lemma exact_match_example:
  "exact_match caseless [(ascii ''per'', [ascii ''Ann'', ascii ''Bob''])] [(ascii ''PER'', [ascii ''Bob'', ascii ''Ann'', ascii ''Ann''])]"
  by code_simp

text \<open>
  C3. When both dictionaries flatten to no entry (two empty dictionaries, or categories
  with empty lists only), the divisor is 0 and \<open>jaccard_similarity\<close> returns 1.
\<close>

theorem jaccard_similarity_empty:
  assumes "flatten_dict ucd predicted = []" and "flatten_dict ucd gold = []"
  shows "snd (jaccard_sums ucd predicted gold) = 0 \<and> jaccard_similarity ucd predicted gold = 1"
  using assms
  by (simp add: jaccard_similarity_def jaccard_sums_def jaccard_loop_def)

theorem jaccard_similarity_empty_witness:
  "flatten_dict caseless [(ascii ''per'', [])] = [] \<and> flatten_dict caseless [] = []
   \<and> snd (jaccard_sums caseless [(ascii ''per'', [])] []) = 0 \<and> jaccard_similarity caseless [(ascii ''per'', [])] [] = 1"
proof -
  have a: "flatten_dict caseless [(ascii ''per'', [])] = []" by (simp add: flatten_dict_def)
  have b: "flatten_dict caseless [] = []" by (simp add: flatten_dict_def)
  show ?thesis using a b jaccard_similarity_empty [OF a b] by simp
qed

subsection \<open>The guard of evaluate\<close>

text \<open>
  C9. For a response whose parsed output is the empty dictionary, \<open>evaluate\<close> returns
  \<open>valid_json = True\<close>, \<open>matched = False\<close> and \<open>jaccard = 0\<close>, whatever the gold data: the
  empty dictionary is falsy, so neither score is computed. On two empty dictionaries the
  scores themselves would be \<open>True\<close> and 1 (\<open>scores_of_empty_dicts\<close>).
\<close>

theorem evaluate_empty_prediction:
  assumes "parsed r = Some []"
  shows "evaluate ucd (Some r) gold_data = (True, False, 0)"
  using assms by (simp add: evaluate_def)

theorem evaluate_empty_prediction_witness:
  "parsed \<lparr>inference_id = 7, episode_id = 3, content = [], parsed = Some []\<rparr> = Some []
   \<and> evaluate caseless (Some \<lparr>inference_id = 7, episode_id = 3, content = [], parsed = Some []\<rparr>) []
       = (True, False, 0)"
  using evaluate_empty_prediction
    [where ?r = "\<lparr>inference_id = 7, episode_id = 3, content = [], parsed = Some []\<rparr>"
       and ?ucd = caseless and ?gold_data = "[]"]
  by simp

lemma scores_of_empty_dicts: "exact_match ucd [] [] \<and> jaccard_similarity ucd [] [] = 1"
  by (simp add: exact_match_def jaccard_similarity_def jaccard_sums_def jaccard_loop_def
      flatten_dict_def)

lemma evaluate_absent_response: "evaluate ucd None gold_data = (False, False, 0)"
  by (simp add: evaluate_def)

subsection \<open>Category names that differ in letter case\<close>

lemma upper_examples:
  "upper ucd (ascii ''per'') = ascii ''PER''"
  "upper ucd [0xE9] = [0xC9]"
  "upper ucd [0xDF] = ascii ''SS''"
  "upper ucd [0x1E9E] = [0x1E9E]"
  by (simp_all add: upper_def upper_mapping_def ascii_def)

lemma exact_match_accented_example:
  "exact_match ucd [([0xE9], [ascii ''x''])] [([0xC9], [ascii ''x''])]"
  by (simp add: exact_match_def flatten_dict_def upper_def upper_mapping_def)

lemma same_letter_upper_mapping:
  assumes "same_letter c c'" and "c \<noteq> 0x1E9E" and "c' \<noteq> 0x1E9E"
  shows "upper_mapping ucd c' = upper_mapping ucd c"
proof -
  have up: "upper_mapping ucd C = upper_mapping ucd s"
    if "small_capital s C" and "C \<noteq> 0x1E9E" for s C
    using that unfolding small_capital_def upper_mapping_def by auto
  from assms(1) consider "c' = c" | "small_capital c c'" | "small_capital c' c"
    unfolding same_letter_def by blast
  then show ?thesis
  proof cases
    case 1
    then show ?thesis by simp
  next
    case 2
    then show ?thesis using assms(3) by (rule up)
  next
    case 3
    with assms(2) show ?thesis by (simp add: up)
  qed
qed

text \<open>
  Names that differ only in letter case have the same upper-case form, unless the capital
  sharp s occurs in one of them.
\<close>

lemma recasing_upper:
  "recasing k k' \<Longrightarrow> 0x1E9E \<notin> set k \<Longrightarrow> 0x1E9E \<notin> set k' \<Longrightarrow> upper ucd k' = upper ucd k"
  unfolding recasing_def upper_def
  by (induction k k' rule: list_all2_induct) (simp_all add: same_letter_upper_mapping)

lemma upper_entry_key: "upper ucd k' = upper ucd k \<Longrightarrow> entry_key ucd k' = entry_key ucd k"
  by (rule ext) (simp add: entry_key_def)

lemma tagged_entries_Cons:
  "tagged_entries ucd ((k, v) # d) = image_mset (entry_key ucd k) (mset v) + tagged_entries ucd d"
  by (simp add: tagged_entries_def)

lemma tagged_entries_delete:
  "wf_dict d \<Longrightarrow> map_of d k = Some v \<Longrightarrow>
     tagged_entries ucd d = image_mset (entry_key ucd k) (mset v) + tagged_entries ucd (AList.delete k d)"
proof (induction d)
  case Nil
  then show ?case by simp
next
  case (Cons p d)
  obtain a b where p: "p = (a, b)" by (cases p)
  show ?case
  proof (cases "a = k")
    case True
    with Cons.prems p have "b = v" and "k \<notin> fst ` set d"
      by (auto simp: wf_dict_def)
    then have "AList.delete k d = d"
      by (simp add: delete_id image_iff)
    with True p \<open>b = v\<close> show ?thesis
      by (simp add: tagged_entries_Cons)
  next
    case False
    with Cons p show ?thesis
      by (simp add: tagged_entries_Cons wf_dict_def)
  qed
qed

lemma tagged_entries_update:
  "wf_dict d \<Longrightarrow> map_of d k = Some v \<Longrightarrow>
     tagged_entries ucd (AList.update k w d) + image_mset (entry_key ucd k) (mset v)
       = tagged_entries ucd d + image_mset (entry_key ucd k) (mset w)"
proof (induction d)
  case Nil
  then show ?case by simp
next
  case (Cons p d)
  obtain a b where p: "p = (a, b)" by (cases p)
  show ?case
  proof (cases "a = k")
    case True
    with Cons.prems p show ?thesis
      by (simp add: tagged_entries_Cons)
  next
    case False
    with Cons p show ?thesis
      by (simp add: tagged_entries_Cons wf_dict_def)
  qed
qed

lemma tagged_entries_rename:
  "entry_key ucd k' = entry_key ucd k \<Longrightarrow>
     tagged_entries ucd (map (\<lambda>(a, b). if a = k then (k', b) else (a, b)) d) = tagged_entries ucd d"
  by (induction d) (auto simp: tagged_entries_def)

lemma tagged_entries_recase_key:
  assumes "wf_dict d" and "upper ucd k' = upper ucd k"
  shows "tagged_entries ucd (recase_key d k k') = tagged_entries ucd d"
proof (cases "map_of d k")
  case None
  then show ?thesis by (simp add: recase_key_def)
next
  case (Some v)
  note key = upper_entry_key [OF assms(2)]
  show ?thesis
  proof (cases "k' = k")
    case True
    with Some show ?thesis by (simp add: recase_key_def)
  next
    case ne: False
    show ?thesis
    proof (cases "map_of d k'")
      case None
      with Some ne show ?thesis
        by (simp add: recase_key_def tagged_entries_rename key)
    next
      case (Some v')
      let ?d' = "AList.delete k d"
      have wf': "wf_dict ?d'"
        using assms(1) by (simp add: wf_dict_def distinct_delete)
      have m': "map_of ?d' k' = Some v'"
        using Some ne by (simp add: delete_conv')
      from tagged_entries_update [OF wf' m', of ucd "v' @ v"]
      have "tagged_entries ucd (AList.update k' (v' @ v) ?d')
              = tagged_entries ucd ?d' + image_mset (entry_key ucd k') (mset v)"
        by simp
      also have "\<dots> = tagged_entries ucd d"
        using tagged_entries_delete [OF assms(1) \<open>map_of d k = Some v\<close>, of ucd]
        by (simp add: key)
      finally show ?thesis
        using Some ne \<open>map_of d k = Some v\<close> by (simp add: recase_key_def)
    qed
  qed
qed

text \<open>Renaming a key leaves a dictionary a dictionary, so renamings can be repeated.\<close>

lemma wf_dict_recase_key:
  assumes "wf_dict d"
  shows "wf_dict (recase_key d k k')"
proof (cases "map_of d k")
  case None
  with assms show ?thesis by (simp add: recase_key_def)
next
  case (Some v)
  show ?thesis
  proof (cases "k' = k")
    case True
    with Some assms show ?thesis by (simp add: recase_key_def)
  next
    case ne: False
    show ?thesis
    proof (cases "map_of d k'")
      case None
      then have notin: "k' \<notin> fst ` set d"
        by (simp add: map_of_eq_None_iff)
      have "map fst (map (\<lambda>(a, b). if a = k then (k', b) else (a, b)) d)
              = map (\<lambda>a. if a = k then k' else a) (map fst d)"
        by (induction d) auto
      moreover have "inj_on (\<lambda>a. if a = k then k' else a) (set (map fst d))"
        using notin by (auto simp: inj_on_def)
      ultimately have "distinct (map fst (map (\<lambda>(a, b). if a = k then (k', b) else (a, b)) d))"
        using assms by (simp add: wf_dict_def distinct_map del: map_map)
      with Some None ne show ?thesis
        by (simp add: recase_key_def wf_dict_def)
    next
      case (Some v')
      with \<open>map_of d k = Some v\<close> ne assms show ?thesis
        by (simp add: recase_key_def wf_dict_def distinct_update distinct_delete)
    qed
  qed
qed

lemma recase_keys_invariant:
  assumes "wf_dict d" and "list_all (\<lambda>(k, k'). upper ucd k' = upper ucd k) renamings"
  shows "wf_dict (recase_keys d renamings)
       \<and> tagged_entries ucd (recase_keys d renamings) = tagged_entries ucd d"
  using assms
proof (induction renamings arbitrary: d)
  case Nil
  then show ?case by (simp add: recase_keys_def)
next
  case (Cons p renamings)
  obtain k k' where p: "p = (k, k')" by (cases p)
  with Cons.prems have r: "upper ucd k' = upper ucd k"
    and rest: "list_all (\<lambda>(k, k'). upper ucd k' = upper ucd k) renamings"
    by simp_all
  have wf: "wf_dict (recase_key d k k')"
    using Cons.prems(1) by (rule wf_dict_recase_key)
  have step: "recase_keys d (p # renamings) = recase_keys (recase_key d k k') renamings"
    by (simp add: recase_keys_def p)
  from Cons.IH [OF wf rest] tagged_entries_recase_key [OF Cons.prems(1) r] show ?case
    unfolding step by simp
qed

text \<open>
  The small and the capital sharp s are two casings of one letter, but \<open>str.upper\<close> maps the
  small one to \<open>SS\<close> and leaves the capital one: renaming the key of a dictionary from one to
  the other changes its flattened entries, and both scores against the dictionary itself.
\<close>

lemma sharp_s_entries:
  "flatten_dict ucd [([0xDF], [ascii ''x''])] = [ascii ''__'' @ ascii ''SS'' @ ascii ''__::'' @ ascii ''x'']"
  "flatten_dict ucd [([0x1E9E], [ascii ''x''])] = [ascii ''__'' @ [0x1E9E] @ ascii ''__::'' @ ascii ''x'']"
  by (simp_all add: flatten_dict_def upper_def upper_mapping_def ascii_def)

theorem sharp_s_keys_distinguished:
  "wf_dict [([0xDF], [ascii ''x''])]
   \<and> recasing [0xDF] [0x1E9E]
   \<and> recase_key [([0xDF], [ascii ''x''])] [0xDF] [0x1E9E] = [([0x1E9E], [ascii ''x''])]
   \<and> mset (flatten_dict caseless [([0x1E9E], [ascii ''x''])])
       \<noteq> mset (flatten_dict caseless [([0xDF], [ascii ''x''])])
   \<and> exact_match caseless [([0xDF], [ascii ''x''])] [([0xDF], [ascii ''x''])]
   \<and> \<not> exact_match caseless [([0x1E9E], [ascii ''x''])] [([0xDF], [ascii ''x''])]
   \<and> jaccard_similarity caseless [([0xDF], [ascii ''x''])] [([0xDF], [ascii ''x''])] = 1
   \<and> jaccard_similarity caseless [([0x1E9E], [ascii ''x''])] [([0xDF], [ascii ''x''])] = 0"
proof -
  have ne: "ascii ''__'' @ [0x1E9E] @ ascii ''__::'' @ ascii ''x''
              \<noteq> ascii ''__'' @ ascii ''SS'' @ ascii ''__::'' @ ascii ''x''"
    by (simp add: ascii_def)
  have a: "wf_dict [([0xDF], [ascii ''x''])]"
    by (simp add: wf_dict_def)
  have b: "recasing [0xDF] [0x1E9E]"
    by (simp add: recasing_def same_letter_def small_capital_def)
  have c: "recase_key [([0xDF], [ascii ''x''])] [0xDF] [0x1E9E] = [([0x1E9E], [ascii ''x''])]"
    by (simp add: recase_key_def)
  have d: "mset (flatten_dict caseless [([0x1E9E], [ascii ''x''])])
       \<noteq> mset (flatten_dict caseless [([0xDF], [ascii ''x''])])"
    using ne by (simp add: sharp_s_entries)
  have e: "exact_match caseless [([0xDF], [ascii ''x''])] [([0xDF], [ascii ''x''])]"
    by (simp add: exact_match_def)
  have f: "\<not> exact_match caseless [([0x1E9E], [ascii ''x''])] [([0xDF], [ascii ''x''])]"
    using ne by (simp add: exact_match_def sharp_s_entries)
  have g: "jaccard_similarity caseless [([0xDF], [ascii ''x''])] [([0xDF], [ascii ''x''])] = 1"
    by (simp add: jaccard_similarity_def jaccard_sums_def jaccard_loop_def Counter_def
        dict_get_def sharp_s_entries)
  have h: "jaccard_similarity caseless [([0x1E9E], [ascii ''x''])] [([0xDF], [ascii ''x''])] = 0"
    using ne ne [symmetric]
    by (simp add: jaccard_similarity_def jaccard_sums_def jaccard_loop_def Counter_def
        dict_get_def sharp_s_entries)
  from a b c d e f g h show ?thesis by blast
qed

text \<open>
  C10 (as the code has it). Category keys with the same upper-case form are not told apart:
  renaming keys of a dictionary to other names with the same upper-case form, as every other
  casing of the same letters has in which the capital sharp s does not occur (the values of a
  key joining those of a key that already has the new name), leaves the flattened entries
  the same up to their order, and leaves \<open>exact_match\<close> and \<open>jaccard_similarity\<close> unchanged
  against any other dictionary, in either argument.
\<close>

theorem recase_key_scores:
  assumes "wf_dict d" and "list_all (\<lambda>(k, k'). upper ucd k' = upper ucd k) renamings"
  shows "mset (flatten_dict ucd (recase_keys d renamings)) = mset (flatten_dict ucd d)
       \<and> exact_match ucd (recase_keys d renamings) other = exact_match ucd d other
       \<and> exact_match ucd other (recase_keys d renamings) = exact_match ucd other d
       \<and> jaccard_similarity ucd (recase_keys d renamings) other = jaccard_similarity ucd d other
       \<and> jaccard_similarity ucd other (recase_keys d renamings) = jaccard_similarity ucd other d"
proof -
  from recase_keys_invariant [OF assms]
  have t: "tagged_entries ucd (recase_keys d renamings) = tagged_entries ucd d"
    by simp
  then have m: "mset (flatten_dict ucd (recase_keys d renamings)) = mset (flatten_dict ucd d)"
    by (simp add: mset_flatten_dict)
  then have s: "set (flatten_dict ucd (recase_keys d renamings)) = set (flatten_dict ucd d)"
    by (rule mset_eq_setD)
  show ?thesis
    unfolding exact_match_def jaccard_similarity_mset t s
    by (intro conjI m refl)
qed

theorem recase_key_scores_witness:
  "wf_dict [(ascii ''per'', [ascii ''Ann'']), (ascii ''PER'', [ascii ''Bob'']),
            (ascii ''loc'', [ascii ''Rome''])]
   \<and> recasing (ascii ''per'') (ascii ''PER'') \<and> recasing (ascii ''loc'') (ascii ''Loc'')
   \<and> upper caseless (ascii ''PER'') = upper caseless (ascii ''per'')
   \<and> upper caseless (ascii ''Loc'') = upper caseless (ascii ''loc'')
   \<and> recase_keys [(ascii ''per'', [ascii ''Ann'']), (ascii ''PER'', [ascii ''Bob'']),
                   (ascii ''loc'', [ascii ''Rome''])]
         [(ascii ''per'', ascii ''PER''), (ascii ''loc'', ascii ''Loc'')]
       = [(ascii ''PER'', [ascii ''Bob'', ascii ''Ann'']), (ascii ''Loc'', [ascii ''Rome''])]
   \<and> mset (flatten_dict caseless
              [(ascii ''PER'', [ascii ''Bob'', ascii ''Ann'']), (ascii ''Loc'', [ascii ''Rome''])])
       = mset (flatten_dict caseless
                [(ascii ''per'', [ascii ''Ann'']), (ascii ''PER'', [ascii ''Bob'']),
                 (ascii ''loc'', [ascii ''Rome''])])
   \<and> jaccard_similarity caseless
         [(ascii ''PER'', [ascii ''Bob'', ascii ''Ann'']), (ascii ''Loc'', [ascii ''Rome''])]
         [(ascii ''Per'', [ascii ''Ann''])]
       = jaccard_similarity caseless
           [(ascii ''per'', [ascii ''Ann'']), (ascii ''PER'', [ascii ''Bob'']),
            (ascii ''loc'', [ascii ''Rome''])]
           [(ascii ''Per'', [ascii ''Ann''])]"
proof -
  let ?d = "[(ascii ''per'', [ascii ''Ann'']), (ascii ''PER'', [ascii ''Bob'']),
             (ascii ''loc'', [ascii ''Rome''])]"
  let ?r = "[(ascii ''per'', ascii ''PER''), (ascii ''loc'', ascii ''Loc'')]"
  have wf: "wf_dict ?d"
    by (simp add: wf_dict_def ascii_def)
  have rc: "recasing (ascii ''per'') (ascii ''PER'')" "recasing (ascii ''loc'') (ascii ''Loc'')"
    by (simp_all add: recasing_def same_letter_def small_capital_def ascii_def)
  have no: "0x1E9E \<notin> set (ascii ''per'')" "0x1E9E \<notin> set (ascii ''PER'')"
    "0x1E9E \<notin> set (ascii ''loc'')" "0x1E9E \<notin> set (ascii ''Loc'')"
    by (simp_all add: ascii_def)
  have up: "upper caseless (ascii ''PER'') = upper caseless (ascii ''per'')"
    "upper caseless (ascii ''Loc'') = upper caseless (ascii ''loc'')"
    using rc no by (simp_all add: recasing_upper)
  then have rs: "list_all (\<lambda>(k, k'). upper caseless k' = upper caseless k) ?r"
    by simp
  have eq: "recase_keys ?d ?r
              = [(ascii ''PER'', [ascii ''Bob'', ascii ''Ann'']), (ascii ''Loc'', [ascii ''Rome''])]"
    by (simp add: recase_keys_def recase_key_def AList.delete_eq ascii_def)
  from recase_key_scores [OF wf rs, of "[(ascii ''Per'', [ascii ''Ann''])]"]
  have "mset (flatten_dict caseless (recase_keys ?d ?r)) = mset (flatten_dict caseless ?d)"
    and "jaccard_similarity caseless (recase_keys ?d ?r) [(ascii ''Per'', [ascii ''Ann''])]
           = jaccard_similarity caseless ?d [(ascii ''Per'', [ascii ''Ann''])]"
    by blast+
  with wf rc up eq show ?thesis
    by (simp only:)
qed

section \<open>Properties of the gateway tasks\<close>

subsection \<open>Gathering\<close>

lemma as_completed_Inr:
  "as_completed order outcomes res = Inr res' \<Longrightarrow>
     (\<forall>i\<in>set order. i < length outcomes \<longrightarrow> \<not> isl (outcomes ! i))
     \<and> res' = res @ map (\<lambda>i. (i, projr (outcomes ! i))) (filter (\<lambda>i. i < length outcomes) order)"
proof (induction order arbitrary: res)
  case Nil
  then show ?case by simp
next
  case (Cons i order)
  show ?case
  proof (cases "i < length outcomes")
    case True
    with Cons.prems obtain r where r: "outcomes ! i = Inr r"
      by (cases "outcomes ! i") auto
    with True Cons.prems have "as_completed order outcomes (res @ [(i, r)]) = Inr res'"
      by simp
    from Cons.IH [OF this] True r show ?thesis by simp
  next
    case False
    with Cons show ?thesis by simp
  qed
qed

lemma as_completed_all_returned:
  "\<forall>i\<in>set order. i < length outcomes \<longrightarrow> \<not> isl (outcomes ! i) \<Longrightarrow>
     as_completed order outcomes res
       = Inr (res @ map (\<lambda>i. (i, projr (outcomes ! i))) (filter (\<lambda>i. i < length outcomes) order))"
proof (induction order arbitrary: res)
  case Nil
  then show ?case by simp
next
  case (Cons i order)
  show ?case
  proof (cases "i < length outcomes")
    case True
    with Cons.prems obtain r where r: "outcomes ! i = Inr r"
      by (cases "outcomes ! i") auto
    with True Cons show ?thesis by simp
  next
    case False
    with Cons show ?thesis by simp
  qed
qed

lemma filter_eq_distinct:
  "distinct l \<Longrightarrow> filter (\<lambda>i. c = i) l = (if c \<in> set l then [c] else [])"
  by (induction l) auto

lemma sort_key_numbered:
  assumes "mset order = mset [0..<n]"
  shows "sort_key fst (map (\<lambda>i. (i, f i)) order) = map (\<lambda>i. (i, f i)) [0..<n]"
proof (rule properties_for_sort_key)
  show "mset (map (\<lambda>i. (i, f i)) [0..<n]) = mset (map (\<lambda>i. (i, f i)) order)"
    unfolding mset_map assms ..
next
  have d: "distinct order"
    using assms by (metis distinct_upt mset_eq_imp_distinct_iff)
  have s: "set order = set [0..<n]"
    using assms by (rule mset_eq_setD)
  fix k assume "k \<in> set (map (\<lambda>i. (i, f i)) [0..<n])"
  show "filter (\<lambda>x. fst k = fst x) (map (\<lambda>i. (i, f i)) [0..<n])
          = filter (\<lambda>x. fst k = fst x) (map (\<lambda>i. (i, f i)) order)"
    using d s by (simp add: filter_map comp_def filter_eq_distinct)
next
  show "sorted (map fst (map (\<lambda>i. (i, f i)) [0..<n]))"
    by (simp add: comp_def)
qed

lemma gather_eq_Inr:
  assumes "mset order = mset [0..<length outcomes]"
    and "gather order outcomes = Inr rs"
  shows "outcomes = map Inr rs"
proof -
  have s: "set order = {0..<length outcomes}"
    using mset_eq_setD [OF assms(1)] by simp
  from assms(2) obtain res where res: "as_completed order outcomes [] = Inr res"
    and rs: "rs = map snd (sort_key fst res)"
    by (auto simp: gather_def split: sum.splits)
  from as_completed_Inr [OF res] s
  have ok: "\<forall>i<length outcomes. \<not> isl (outcomes ! i)"
    and "res = map (\<lambda>i. (i, projr (outcomes ! i))) order"
    by auto
  with rs have "rs = map (\<lambda>i. projr (outcomes ! i)) [0..<length outcomes]"
    by (simp add: sort_key_numbered [OF assms(1)] comp_def)
  then have "map Inr rs = map (\<lambda>i. outcomes ! i) [0..<length outcomes]"
    using ok by (simp add: comp_def)
  then show ?thesis by (simp add: map_nth)
qed

lemma gather_all_returned:
  assumes "mset order = mset [0..<length rs]"
  shows "gather order (map Inr rs) = Inr rs"
proof -
  have s: "set order = {0..<length rs}"
    using mset_eq_setD [OF assms] by simp
  then have f: "filter (\<lambda>i. i < length rs) order = order"
    by (auto simp: filter_id_conv)
  have "as_completed order (map Inr rs) []
          = Inr (map (\<lambda>i. (i, projr (map Inr rs ! i))) order)"
    using as_completed_all_returned [of order "map Inr rs" "[]"] s f by simp
  also have "map (\<lambda>i. (i, projr (map Inr rs ! i))) order = map (\<lambda>i. (i, rs ! i)) order"
    using s by auto
  finally show ?thesis
    by (simp add: gather_def sort_key_numbered [OF assms] comp_def map_nth)
qed

subsection \<open>The retry loop\<close>

lemma upt_3: "[0..<3] = [0, 1, 2]" "[1..<3] = [1, 2]" "[1..<2] = [1]" "[1..<1] = []"
  by (simp_all add: upt_rec)

lemma wait_random_exponential_bounds:
  assumes "0 \<le> rnd a" and "rnd a \<le> 1"
  shows "0 \<le> wait_random_exponential 1 10 rnd a \<and> wait_random_exponential 1 10 rnd a \<le> 10"
proof -
  let ?h = "wait_exponential 1 10 a"
  have h: "0 \<le> ?h" "?h \<le> 10"
    by (simp_all add: wait_exponential_def)
  have "?h * rnd a \<le> ?h * 1"
    using assms h by (intro mult_left_mono) simp_all
  with h assms show ?thesis
    by (simp add: wait_random_exponential_def uniform_def)
qed

lemma inner_get_entities_cases:
  "inner_get_entities text client rnd variant dry s =
     (let req = extract_entities_request text variant dry;
          w = wait_random_exponential 1 10 rnd
      in case client (calls s) req of
           Inr r \<Rightarrow> (Inr r, s\<lparr>calls := calls s + 1, events := events s @ [Call req]\<rparr>)
         | Inl e0 \<Rightarrow>
            (case client (calls s + 1) req of
               Inr r \<Rightarrow> (Inr r, s\<lparr>calls := calls s + 2,
                                   events := events s @ [Call req, Sleep (w 1), Call req]\<rparr>)
             | Inl e1 \<Rightarrow>
                (case client (calls s + 2) req of
                   Inr r \<Rightarrow> (Inr r, s\<lparr>calls := calls s + 3,
                        events := events s @ [Call req, Sleep (w 1), Call req, Sleep (w 2), Call req]\<rparr>)
                 | Inl e2 \<Rightarrow> (Inl (RetryError e2), s\<lparr>calls := calls s + 3,
                        events := events s @ [Call req, Sleep (w 1), Call req, Sleep (w 2), Call req]\<rparr>))))"
  by (simp add: inner_get_entities_def retry_def inference_def sleep_def Let_def numeral_2_eq_2
      numeral_3_eq_3 split: sum.splits)

lemma waits_upt:
  "[1..<min 3 (0 + 1)] = ([] :: nat list)"
  "[1..<min 3 (1 + 1)] = [1 :: nat]"
  "[1..<min 3 (2 + 1)] = [1, 2 :: nat]"
  "[1..<min 3 (3 + 1)] = [1, 2 :: nat]"
  by (simp_all add: upt_rec)

lemma failed_attempts_3:
  "failed_attempts client req start 3 =
     (if isl (client start req)
      then if isl (client (start + 1) req)
           then if isl (client (start + 2) req) then 3 else 2
           else 1
      else 0)"
  by (simp add: failed_attempts_def upt_3)


text \<open>
  C5. The retry policy wraps the inference call only. \<open>_get_entities\<close> makes one more call
  than the number of failures before the first success, and never more than 3; between
  two attempts it sleeps for a time between 0 and 10 drawn by randomized exponential
  backoff; it returns the response of the first call that succeeds. When all three attempts
  fail the failure (\<open>RetryError\<close>) reaches \<open>get_entities\<close>, which prints it and returns \<open>None\<close>.
\<close>

theorem get_entities_retry_policy:
  fixes client :: "'v client"
  assumes rnd: "\<And>a. 0 \<le> rnd a \<and> rnd a \<le> 1"
  shows "case inner_get_entities text client rnd variant dry s of (result, s') \<Rightarrow>
           let req = extract_entities_request text variant dry;
               failed = failed_attempts client req (calls s) 3;
               attempts = min 3 (failed + 1);
               waits = map (wait_random_exponential 1 10 rnd) [1..<attempts]
           in calls s' = calls s + attempts
            \<and> attempts \<le> 3
            \<and> events s' = events s @ attempts_trace req waits
            \<and> (\<forall>w\<in>set waits. 0 \<le> w \<and> w \<le> 10)
            \<and> (failed < 3 \<longrightarrow> result = client (calls s + failed) req \<and> \<not> isl result
                  \<and> get_entities text client rnd variant dry s = (Some (projr result), s'))
            \<and> (failed = 3 \<longrightarrow> isl result
                  \<and> get_entities text client rnd variant dry s
                      = (None, print (''Error: '' @ exn_str (projl result)) s'))"
proof -
  let ?req = "extract_entities_request text variant dry"
  note b = wait_random_exponential_bounds [of rnd]
  have w: "0 \<le> wait_random_exponential 1 10 rnd a" "wait_random_exponential 1 10 rnd a \<le> 10" for a
    using rnd [of a] b [of a] by simp_all
  show ?thesis
  proof (cases "client (calls s) ?req")
    case (Inr r)
    then have F: "failed_attempts client ?req (calls s) 3 = 0"
      by (simp add: failed_attempts_3)
    show ?thesis
      unfolding Let_def F waits_upt
      using Inr by (simp add: inner_get_entities_cases get_entities_def Let_def)
  next
    case e0: (Inl e0)
    show ?thesis
    proof (cases "client (calls s + 1) ?req")
      case (Inr r)
      with e0 have F: "failed_attempts client ?req (calls s) 3 = 1"
        by (simp add: failed_attempts_3)
      show ?thesis
        unfolding Let_def F waits_upt
        using e0 Inr by (simp add: inner_get_entities_cases get_entities_def Let_def w)
    next
      case e1: (Inl e1)
      show ?thesis
      proof (cases "client (calls s + 2) ?req")
        case (Inr r)
        with e0 e1 have F: "failed_attempts client ?req (calls s) 3 = 2"
          by (simp add: failed_attempts_3)
        show ?thesis
          unfolding Let_def F waits_upt
          using e0 e1 Inr by (simp add: inner_get_entities_cases get_entities_def Let_def w)
      next
        case (Inl e2)
        with e0 e1 have F: "failed_attempts client ?req (calls s) 3 = 3"
          by (simp add: failed_attempts_3)
        show ?thesis
          unfolding Let_def F waits_upt
          using e0 e1 Inl by (simp add: inner_get_entities_cases get_entities_def Let_def w)
      qed
    qed
  qed
qed

theorem get_entities_retry_policy_witness:
  "(\<forall>a::nat. (0::rat) \<le> 1 / 2 \<and> (1::rat) / 2 \<le> 1)
   \<and> failed_attempts (timeout_client :: entity_dict client)
         (extract_entities_request ''Rome'' None False) 0 3 = 3
   \<and> get_entities ''Rome'' (timeout_client :: entity_dict client) (\<lambda>a. 1 / 2) None False empty_effects
       = (None,
          \<lparr>calls = 3,
           events = [Call (extract_entities_request ''Rome'' None False), Sleep (1 / 2),
                     Call (extract_entities_request ''Rome'' None False), Sleep 1,
                     Call (extract_entities_request ''Rome'' None False),
                     Print ''Error: RetryError[TimeoutError]'']\<rparr>)
   \<and> failed_attempts flaky_client (extract_entities_request ''Rome'' None False) 0 3 = 2
   \<and> fst (get_entities ''Rome'' flaky_client (\<lambda>a. 1 / 2) None False empty_effects)
       = Some \<lparr>inference_id = 5, episode_id = 6, content = [],
               parsed = Some [(ascii ''person'', [ascii ''Ann''])]\<rparr>"
proof -
  have r: "0 \<le> (\<lambda>a::nat. 1 / 2 :: rat) a \<and> (\<lambda>a::nat. 1 / 2 :: rat) a \<le> 1" for a
    by simp
  have f3: "failed_attempts (timeout_client :: entity_dict client)
         (extract_entities_request ''Rome'' None False) 0 3 = 3"
    by (simp add: failed_attempts_3 timeout_client_def)
  have f2: "failed_attempts flaky_client (extract_entities_request ''Rome'' None False) 0 3 = 2"
    by (simp add: failed_attempts_3 flaky_client_def)
  show ?thesis
    using get_entities_retry_policy [where ?rnd = "\<lambda>a. 1 / 2" and ?text = "''Rome''"
        and ?client = "timeout_client :: entity_dict client" and ?variant = None and ?dry = False
        and ?s = empty_effects, OF r]
      get_entities_retry_policy [where ?rnd = "\<lambda>a. 1 / 2" and ?text = "''Rome''"
        and ?client = flaky_client and ?variant = None and ?dry = False and ?s = empty_effects, OF r]
    by (simp add: f3 f2 inner_get_entities_cases timeout_client_def flaky_client_def empty_effects_def
        print_def RetryError_def wait_random_exponential_def wait_exponential_def uniform_def
        get_entities_def Let_def)
qed

subsection \<open>Failures of the inference call\<close>

lemma train_responses_eq:
  assumes "mset order = mset [0..<min NUM_TRAIN_PREDICTIONS (length train_df)]"
  shows "train_responses clients rnds order train_df
           = Inr (map (\<lambda>(i, text). make_inference text (clients i) (rnds i))
                   (enumerate 0 (take NUM_TRAIN_PREDICTIONS (map fst train_df))))"
proof -
  let ?rs = "map (\<lambda>(i, text). make_inference text (clients i) (rnds i))
               (enumerate 0 (take NUM_TRAIN_PREDICTIONS (map fst train_df)))"
  have len: "length ?rs = min NUM_TRAIN_PREDICTIONS (length train_df)"
    by (simp add: min.commute)
  have fe: "(\<lambda>(i, text). Inr (make_inference text (clients i) (rnds i)))
              = Inr \<circ> (\<lambda>(i, text). make_inference text (clients i) (rnds i))"
    by (simp add: fun_eq_iff)
  have "gather order (map Inr ?rs) = Inr ?rs"
    by (rule gather_all_returned) (simp only: len assms)
  then show ?thesis
    unfolding train_responses_def fe map_map .
qed

lemma train_responses_nth:
  assumes "i < min NUM_TRAIN_PREDICTIONS (length train_df)"
  shows "map (\<lambda>(i, text). make_inference text (clients i) (rnds i))
           (enumerate 0 (take NUM_TRAIN_PREDICTIONS (map fst train_df))) ! i
         = make_inference (fst (train_df ! i)) (clients i) (rnds i)"
  using assms by (simp add: nth_enumerate_eq)

lemma example_order: "mset [1, 0] = mset [0..<min NUM_TRAIN_PREDICTIONS (length example_df)]"
  by (simp add: NUM_TRAIN_PREDICTIONS_def example_df_def upt_rec)

lemma example_responses:
  "map (\<lambda>(i, text). make_inference text (example_clients i) (\<lambda>a. 1 / 2))
     (enumerate 0 (take NUM_TRAIN_PREDICTIONS (map fst example_df)))
   = [None, Some \<lparr>inference_id = 5, episode_id = 6, content = [],
                  parsed = Some [(ascii ''person'', [ascii ''Ann''])]\<rparr>]"
  by (simp add: NUM_TRAIN_PREDICTIONS_def example_df_def example_clients_def make_inference_def
      get_entities_def inner_get_entities_cases timeout_client_def flaky_client_def
      empty_effects_def Let_def)


lemma ratelimited_write_grade_haiku_failed:
  assumes "isl (hclient 0 (write_haiku_request noun))"
  shows "ratelimited_write_grade_haiku noun hclient = Inr None"
proof -
  from assms obtain e where "hclient 0 (write_haiku_request noun) = Inl e"
    by (cases "hclient 0 (write_haiku_request noun)") auto
  then show ?thesis
    by (simp add: ratelimited_write_grade_haiku_def write_grade_haiku_def inference_def
        empty_effects_def)
qed

lemma haiku_results_all_failed:
  assumes "mset horder = mset [0..<min num_requests (length nouns)]"
    and "\<forall>i < min num_requests (length nouns). isl (hclients i 0 (write_haiku_request (nouns ! i)))"
  shows "haiku_results hclients horder nouns
           = Inr (replicate (min num_requests (length nouns)) None)"
proof -
  let ?n = "min num_requests (length nouns)"
  let ?outcomes = "map (\<lambda>(i, noun). ratelimited_write_grade_haiku noun (hclients i))
                     (enumerate 0 (take num_requests nouns))"
  have "?outcomes = map Inr (replicate ?n None)"
  proof (rule nth_equalityI)
    show "length ?outcomes = length (map Inr (replicate ?n None))"
      by (simp add: min.commute)
  next
    fix i assume "i < length ?outcomes"
    then have i: "i < ?n"
      by (simp add: min.commute)
    then have "?outcomes ! i = ratelimited_write_grade_haiku (nouns ! i) (hclients i)"
      by (simp add: nth_enumerate_eq)
    also have "\<dots> = Inr None"
      using assms(2) i by (intro ratelimited_write_grade_haiku_failed) blast
    finally show "?outcomes ! i = map Inr (replicate ?n None) ! i"
      using i by simp
  qed
  moreover have "gather horder (map Inr (replicate ?n None)) = Inr (replicate ?n None)"
    by (rule gather_all_returned) (simp only: length_replicate assms(1))
  ultimately show ?thesis
    by (simp only: haiku_results_def)
qed

text \<open>
  C4. An exception of the inference call does not leave the wrapper: \<open>get_entities\<close> prints
  the exception of \<open>_get_entities\<close> (raised once its attempts are exhausted) and returns
  \<open>None\<close>; \<open>write_grade_haiku\<close> prints the exception and returns \<open>None\<close> when its first
  inference call raises, and when its second one does. So the batch of the NER notebook
  returns one result for each text, whichever calls fail and in whatever order the tasks
  complete, and the batch of the haiku notebook returns one \<open>None\<close> for each noun even when
  the first inference call of every task fails.
\<close>

theorem inference_failure_gives_None:
  fixes client :: "'v client" and hclient :: "(string \<times> bool) list client" and clients :: "nat \<Rightarrow> 'w client"
  shows
    "(inner_get_entities text client rnd variant dry s = (Inl e, s')
        \<longrightarrow> get_entities text client rnd variant dry s
              = (None, print (''Error: '' @ exn_str e) s'))
   \<and> (hclient (calls hs) (write_haiku_request topic) = Inl ew
        \<longrightarrow> write_grade_haiku topic hclient hs
              = (Inr None,
                 print (exn_str ew) (snd (inference hclient (write_haiku_request topic) hs))))
   \<and> (hclient (calls hs) (write_haiku_request topic) = Inr r
        \<and> content r = first_text # others
        \<and> hclient (calls hs + 1)
             (judge_haiku_request topic
                (join [CHR 0x0A] (last_three (split (CHR 0x0A) (strip first_text))))
                (episode_id r)) = Inl ej
        \<longrightarrow> fst (write_grade_haiku topic hclient hs) = Inr None
          \<and> last (events (snd (write_grade_haiku topic hclient hs)))
              = Print (''Error occurred: '' @ exn_type ej @ '': '' @ exn_str ej))
   \<and> (mset order = mset [0..<min NUM_TRAIN_PREDICTIONS (length train_df)]
        \<longrightarrow> train_responses clients rnds order train_df
              = Inr (map (\<lambda>(i, text). make_inference text (clients i) (rnds i))
                      (enumerate 0 (take NUM_TRAIN_PREDICTIONS (map fst train_df)))))
   \<and> (mset horder = mset [0..<min num_requests (length nouns)]
        \<and> (\<forall>i < min num_requests (length nouns).
               isl (hclients i 0 (write_haiku_request (nouns ! i))))
        \<longrightarrow> haiku_results hclients horder nouns
              = Inr (replicate (min num_requests (length nouns)) None))"
proof (intro conjI impI)
  assume "inner_get_entities text client rnd variant dry s = (Inl e, s')"
  then show "get_entities text client rnd variant dry s
               = (None, print (''Error: '' @ exn_str e) s')"
    by (simp add: get_entities_def)
next
  assume "hclient (calls hs) (write_haiku_request topic) = Inl ew"
  then show "write_grade_haiku topic hclient hs
       = (Inr None, print (exn_str ew) (snd (inference hclient (write_haiku_request topic) hs)))"
    by (simp add: write_grade_haiku_def inference_def)
next
  assume a: "hclient (calls hs) (write_haiku_request topic) = Inr r
        \<and> content r = first_text # others
        \<and> hclient (calls hs + 1)
             (judge_haiku_request topic
                (join [CHR 0x0A] (last_three (split (CHR 0x0A) (strip first_text))))
                (episode_id r)) = Inl ej"
  then show "fst (write_grade_haiku topic hclient hs) = Inr None"
    by (simp add: write_grade_haiku_def inference_def Let_def)
  from a show "last (events (snd (write_grade_haiku topic hclient hs)))
              = Print (''Error occurred: '' @ exn_type ej @ '': '' @ exn_str ej)"
    by (simp add: write_grade_haiku_def inference_def Let_def print_def)
next
  assume "mset order = mset [0..<min NUM_TRAIN_PREDICTIONS (length train_df)]"
  then show "train_responses clients rnds order train_df
              = Inr (map (\<lambda>(i, text). make_inference text (clients i) (rnds i))
                      (enumerate 0 (take NUM_TRAIN_PREDICTIONS (map fst train_df))))"
    by (rule train_responses_eq)
next
  assume "mset horder = mset [0..<min num_requests (length nouns)]
        \<and> (\<forall>i < min num_requests (length nouns).
               isl (hclients i 0 (write_haiku_request (nouns ! i))))"
  then show "haiku_results hclients horder nouns
              = Inr (replicate (min num_requests (length nouns)) None)"
    by (intro haiku_results_all_failed) simp_all
qed

theorem inference_failure_gives_None_witness:
  "inner_get_entities ''Rome'' (timeout_client :: entity_dict client) (\<lambda>a. 1 / 2) None False
       empty_effects
     = (Inl (RetryError (Exn ''TimeoutError'' ''timed out'')),
        \<lparr>calls = 3,
         events = [Call (extract_entities_request ''Rome'' None False), Sleep (1 / 2),
                   Call (extract_entities_request ''Rome'' None False), Sleep 1,
                   Call (extract_entities_request ''Rome'' None False)]\<rparr>)
   \<and> fst (get_entities ''Rome'' (timeout_client :: entity_dict client) (\<lambda>a. 1 / 2) None False
            empty_effects) = None
   \<and> timeout_client (calls empty_effects) (write_haiku_request ''moon'')
       = Inl (Exn ''TimeoutError'' ''timed out'')
   \<and> write_grade_haiku ''moon'' timeout_client empty_effects
       = (Inr None,
          \<lparr>calls = 1, events = [Call (write_haiku_request ''moon''), Print ''timed out'']\<rparr>)
   \<and> fst (write_grade_haiku ''moon'' judge_down_client empty_effects) = Inr None
   \<and> last (events (snd (write_grade_haiku ''moon'' judge_down_client empty_effects)))
       = Print ''Error occurred: TensorZeroError: 502''
   \<and> train_responses example_clients (\<lambda>i a. 1 / 2) [1, 0] example_df
       = Inr [None, Some \<lparr>inference_id = 5, episode_id = 6, content = [],
                          parsed = Some [(ascii ''person'', [ascii ''Ann''])]\<rparr>]
   \<and> isl (timeout_client 0 (write_haiku_request ''moon'') :: exn + (string \<times> bool) list inference_response)
   \<and> isl (timeout_client 0 (write_haiku_request ''sea'') :: exn + (string \<times> bool) list inference_response)
   \<and> haiku_results (\<lambda>i. timeout_client) [0, 1] [''moon'', ''sea''] = Inr [None, None]"
proof -
  let ?s3 = "\<lparr>calls = 3,
         events = [Call (extract_entities_request ''Rome'' None False), Sleep (1 / 2),
                   Call (extract_entities_request ''Rome'' None False), Sleep 1,
                   Call (extract_entities_request ''Rome'' None False)]\<rparr>"
  let ?r = "\<lparr>inference_id = 11, episode_id = 12,
             content = [''Thinking.'' @ [CHR 0x0A] @ ''a'' @ [CHR 0x0A] @ ''b'' @ [CHR 0x0A] @ ''c''],
             parsed = (None :: (string \<times> bool) list option)\<rparr>"
  note inst = inference_failure_gives_None
    [where ?text = "''Rome''" and ?client = "timeout_client :: entity_dict client"
       and ?rnd = "\<lambda>a. 1 / 2" and ?variant = None and ?dry = False and ?s = empty_effects
       and ?e = "RetryError (Exn ''TimeoutError'' ''timed out'')" and ?s' = ?s3
       and ?order = "[1, 0]" and ?train_df = example_df and ?clients = example_clients
       and ?rnds = "\<lambda>i a. 1 / 2" and ?horder = "[0, 1]" and ?nouns = "[''moon'', ''sea'']"
       and ?hclients = "\<lambda>i. timeout_client"]
  have h5: "mset [0, 1] = mset [0..<min num_requests (length [''moon'', ''sea''])]"
    by (simp add: num_requests_def upt_rec)
  have h6: "\<forall>i < min num_requests (length [''moon'', ''sea'']).
         isl (timeout_client 0 (write_haiku_request ([''moon'', ''sea''] ! i)) :: exn + (string \<times> bool) list inference_response)"
    by (simp add: timeout_client_def)
  have h1: "inner_get_entities ''Rome'' (timeout_client :: entity_dict client) (\<lambda>a. 1 / 2) None
       False empty_effects = (Inl (RetryError (Exn ''TimeoutError'' ''timed out'')), ?s3)"
    by (simp add: inner_get_entities_cases timeout_client_def empty_effects_def Let_def
        wait_random_exponential_def wait_exponential_def uniform_def)
  have h2: "timeout_client (calls empty_effects) (write_haiku_request ''moon'')
       = Inl (Exn ''TimeoutError'' ''timed out'')"
    by (simp add: timeout_client_def)
  have h3: "judge_down_client (calls empty_effects) (write_haiku_request ''moon'') = Inr ?r
        \<and> content ?r = (''Thinking.'' @ [CHR 0x0A] @ ''a'' @ [CHR 0x0A] @ ''b'' @ [CHR 0x0A] @ ''c'') # []
        \<and> judge_down_client (calls empty_effects + 1)
             (judge_haiku_request ''moon''
                (join [CHR 0x0A] (last_three (split (CHR 0x0A)
                   (strip (''Thinking.'' @ [CHR 0x0A] @ ''a'' @ [CHR 0x0A] @ ''b'' @ [CHR 0x0A] @ ''c'')))))
                (episode_id ?r)) = Inl (Exn ''TensorZeroError'' ''502'')"
    by (simp add: judge_down_client_def empty_effects_def)
  from inst [where ?hs = empty_effects and ?hclient = timeout_client and ?topic = "''moon''"
      and ?ew = "Exn ''TimeoutError'' ''timed out''", THEN conjunct1, THEN mp, OF h1]
  have c1: "fst (get_entities ''Rome'' (timeout_client :: entity_dict client) (\<lambda>a. 1 / 2) None
       False empty_effects) = None"
    by simp
  from inst [where ?hs = empty_effects and ?hclient = timeout_client and ?topic = "''moon''"
      and ?ew = "Exn ''TimeoutError'' ''timed out''", THEN conjunct2, THEN conjunct1, THEN mp, OF h2]
  have c2: "write_grade_haiku ''moon'' timeout_client empty_effects
       = (Inr None,
          \<lparr>calls = 1, events = [Call (write_haiku_request ''moon''), Print ''timed out'']\<rparr>)"
    by (simp add: inference_def print_def empty_effects_def)
  from inst [where ?hs = empty_effects and ?hclient = judge_down_client and ?topic = "''moon''"
      and ?r = ?r and ?ej = "Exn ''TensorZeroError'' ''502''",
      THEN conjunct2, THEN conjunct2, THEN conjunct1, THEN mp, OF h3]
  have c3: "fst (write_grade_haiku ''moon'' judge_down_client empty_effects) = Inr None
     \<and> last (events (snd (write_grade_haiku ''moon'' judge_down_client empty_effects)))
       = Print ''Error occurred: TensorZeroError: 502''"
    by simp
  from inst [THEN conjunct2, THEN conjunct2, THEN conjunct2, THEN conjunct1, THEN mp,
      OF example_order]
  have c4: "train_responses example_clients (\<lambda>i a. 1 / 2) [1, 0] example_df
       = Inr [None, Some \<lparr>inference_id = 5, episode_id = 6, content = [],
                          parsed = Some [(ascii ''person'', [ascii ''Ann''])]\<rparr>]"
    by (simp only: example_responses)
  from inst [where ?hs = empty_effects and ?hclient = timeout_client and ?topic = "''moon''",
      THEN conjunct2, THEN conjunct2, THEN conjunct2, THEN conjunct2, THEN mp, OF conjI [OF h5 h6]]
  have c5: "haiku_results (\<lambda>i. timeout_client) [0, 1] [''moon'', ''sea''] = Inr [None, None]"
    by (simp add: num_requests_def numeral_2_eq_2)
  have h7: "isl (timeout_client 0 (write_haiku_request ''moon'') :: exn + (string \<times> bool) list inference_response)"
    "isl (timeout_client 0 (write_haiku_request ''sea'') :: exn + (string \<times> bool) list inference_response)"
    by (simp_all add: timeout_client_def)
  from h1 c1 h2 c2 c3 c4 h7 c5 show ?thesis by blast
qed



subsection \<open>The order of the gathered results\<close>

text \<open>
  C6. The list that \<open>gather\<close> returns has one entry for each task, in the order of the
  tasks, whatever the order in which they complete. In the NER notebook the entry at each
  position is the response (or \<open>None\<close>) for the input of the row at that position, so zipping
  the responses with the gold outputs of the same rows pairs each response with the gold
  output of its text. In the haiku notebook, when \<open>gather\<close> returns, the entry at each
  position is the result of the task for the noun at that position.
\<close>

theorem gathered_results_positional:
  fixes clients :: "nat \<Rightarrow> 'v client"
  shows
    "(mset order = mset [0..<length rs] \<longrightarrow> gather order (map Inr rs) = Inr rs)
   \<and> (mset order = mset [0..<min NUM_TRAIN_PREDICTIONS (length train_df)] \<longrightarrow>
        (let responses = projr (train_responses clients rnds order train_df);
             golds = take NUM_TRAIN_PREDICTIONS (map snd train_df)
         in \<not> isl (train_responses clients rnds order train_df)
          \<and> length responses = min NUM_TRAIN_PREDICTIONS (length train_df)
          \<and> length (zip responses golds) = min NUM_TRAIN_PREDICTIONS (length train_df)
          \<and> (\<forall>i < min NUM_TRAIN_PREDICTIONS (length train_df).
                zip responses golds ! i
                  = (make_inference (fst (train_df ! i)) (clients i) (rnds i), snd (train_df ! i)))))
   \<and> (mset horder = mset [0..<min num_requests (length nouns)]
        \<and> haiku_results hclients horder nouns = Inr results \<longrightarrow>
          length results = min num_requests (length nouns)
          \<and> (\<forall>i < min num_requests (length nouns).
                ratelimited_write_grade_haiku (nouns ! i) (hclients i) = Inr (results ! i)))"
proof (intro conjI impI)
  assume "mset order = mset [0..<length rs]"
  then show "gather order (map Inr rs) = Inr rs"
    by (rule gather_all_returned)
next
  let ?n = "min NUM_TRAIN_PREDICTIONS (length train_df)"
  let ?rs = "map (\<lambda>(i, text). make_inference text (clients i) (rnds i))
               (enumerate 0 (take NUM_TRAIN_PREDICTIONS (map fst train_df)))"
  assume "mset order = mset [0..<?n]"
  then have eq: "train_responses clients rnds order train_df = Inr ?rs"
    by (rule train_responses_eq)
  have len: "length ?rs = ?n"
    by (simp add: min.commute)
  have nth: "zip ?rs (take NUM_TRAIN_PREDICTIONS (map snd train_df)) ! i
               = (make_inference (fst (train_df ! i)) (clients i) (rnds i), snd (train_df ! i))"
    if "i < ?n" for i
    using that by (simp add: nth_enumerate_eq)
  show "let responses = projr (train_responses clients rnds order train_df);
            golds = take NUM_TRAIN_PREDICTIONS (map snd train_df)
        in \<not> isl (train_responses clients rnds order train_df)
          \<and> length responses = ?n
          \<and> length (zip responses golds) = ?n
          \<and> (\<forall>i < ?n.
                zip responses golds ! i
                  = (make_inference (fst (train_df ! i)) (clients i) (rnds i), snd (train_df ! i)))"
    unfolding eq Let_def using len nth by (simp add: min.commute)
next
  let ?n = "min num_requests (length nouns)"
  let ?outcomes = "map (\<lambda>(i, noun). ratelimited_write_grade_haiku noun (hclients i))
                     (enumerate 0 (take num_requests nouns))"
  assume a: "mset horder = mset [0..<?n] \<and> haiku_results hclients horder nouns = Inr results"
  have len: "length ?outcomes = ?n"
    by (simp add: min.commute)
  from a have "gather horder ?outcomes = Inr results"
    by (simp add: haiku_results_def)
  with a len have out: "?outcomes = map Inr results"
    by (intro gather_eq_Inr [of horder]) simp_all
  then have "length ?outcomes = length results"
    by simp
  with len show l: "length results = ?n"
    by simp
  show "\<forall>i < ?n. ratelimited_write_grade_haiku (nouns ! i) (hclients i) = Inr (results ! i)"
  proof (intro allI impI)
    fix i assume i: "i < ?n"
    then have "ratelimited_write_grade_haiku (nouns ! i) (hclients i) = ?outcomes ! i"
      by (simp add: nth_enumerate_eq)
    also have "\<dots> = map Inr results ! i"
      by (simp only: out)
    also have "\<dots> = Inr (results ! i)"
      using i l by simp
    finally show "ratelimited_write_grade_haiku (nouns ! i) (hclients i) = Inr (results ! i)" .
  qed
qed

theorem gathered_results_positional_witness:
  "mset [2, 0, 1] = mset [0..<length [10, 11, 12 :: nat]]
   \<and> gather [2, 0, 1] (map Inr [10, 11, 12 :: nat]) = Inr [10, 11, 12]
   \<and> mset [1, 0] = mset [0..<min NUM_TRAIN_PREDICTIONS (length example_df)]
   \<and> train_responses example_clients (\<lambda>i a. 1 / 2) [1, 0] example_df
       = Inr [None, Some \<lparr>inference_id = 5, episode_id = 6, content = [],
                          parsed = Some [(ascii ''person'', [ascii ''Ann''])]\<rparr>]
   \<and> zip (projr (train_responses example_clients (\<lambda>i a. 1 / 2) [1, 0] example_df))
          (take NUM_TRAIN_PREDICTIONS (map snd example_df)) ! 1
       = (make_inference ''Ann left'' flaky_client (\<lambda>a. 1 / 2), [(ascii ''person'', [ascii ''Ann''])])
   \<and> mset [1, 0] = mset [0..<min num_requests (length [''moon'', ''sea''])]
   \<and> haiku_results (\<lambda>i. timeout_client) [1, 0] [''moon'', ''sea''] = Inr [None, None]
   \<and> ratelimited_write_grade_haiku ''sea'' timeout_client = Inr None"
proof -
  have o3: "mset [2, 0, 1] = mset [0..<length [10, 11, 12 :: nat]]"
    by (simp add: upt_rec)
  have oh: "mset [1, 0] = mset [0..<min num_requests (length [''moon'', ''sea''])]"
    by (simp add: num_requests_def upt_rec)
  have hr: "haiku_results (\<lambda>i. timeout_client) [1, 0] [''moon'', ''sea''] = Inr [None, None]"
    by (simp add: haiku_results_def num_requests_def gather_def ratelimited_write_grade_haiku_def
        write_grade_haiku_def inference_def timeout_client_def)
  have i1: "(1::nat) < min NUM_TRAIN_PREDICTIONS (length example_df)"
    by (simp add: NUM_TRAIN_PREDICTIONS_def example_df_def)
  have i1h: "(1::nat) < min num_requests (length [''moon'', ''sea''])"
    by (simp add: num_requests_def)
  note inst = gathered_results_positional
    [where ?order = "[1, 0]" and ?train_df = example_df and ?clients = example_clients
       and ?rnds = "\<lambda>i a. 1 / 2" and ?horder = "[1, 0]" and ?nouns = "[''moon'', ''sea'']"
       and ?hclients = "\<lambda>i. timeout_client" and ?results = "[None, None]"]
  from gathered_results_positional [where ?order = "[2, 0, 1]" and ?rs = "[10, 11, 12 :: nat]",
      THEN conjunct1, THEN mp, OF o3]
  have c1: "gather [2, 0, 1] (map Inr [10, 11, 12 :: nat]) = Inr [10, 11, 12]" .
  from inst [THEN conjunct2, THEN conjunct1, THEN mp, OF example_order]
  have "\<forall>i < min NUM_TRAIN_PREDICTIONS (length example_df).
          zip (projr (train_responses example_clients (\<lambda>i a. 1 / 2) [1, 0] example_df))
              (take NUM_TRAIN_PREDICTIONS (map snd example_df)) ! i
            = (make_inference (fst (example_df ! i)) (example_clients i) (\<lambda>a. 1 / 2),
               snd (example_df ! i))"
    unfolding Let_def by blast
  with i1 have "zip (projr (train_responses example_clients (\<lambda>i a. 1 / 2) [1, 0] example_df))
              (take NUM_TRAIN_PREDICTIONS (map snd example_df)) ! 1
            = (make_inference (fst (example_df ! 1)) (example_clients 1) (\<lambda>a. 1 / 2),
               snd (example_df ! 1))"
    by blast
  moreover have "fst (example_df ! 1) = ''Ann left''" "snd (example_df ! 1) = [(ascii ''person'', [ascii ''Ann''])]"
    "example_clients 1 = flaky_client"
    by (simp_all add: example_df_def example_clients_def)
  ultimately have c2: "zip (projr (train_responses example_clients (\<lambda>i a. 1 / 2) [1, 0] example_df))
          (take NUM_TRAIN_PREDICTIONS (map snd example_df)) ! 1
       = (make_inference ''Ann left'' flaky_client (\<lambda>a. 1 / 2), [(ascii ''person'', [ascii ''Ann''])])"
    by (simp only:)
  have c3: "train_responses example_clients (\<lambda>i a. 1 / 2) [1, 0] example_df
       = Inr [None, Some \<lparr>inference_id = 5, episode_id = 6, content = [],
                          parsed = Some [(ascii ''person'', [ascii ''Ann''])]\<rparr>]"
    using train_responses_eq [OF example_order, of example_clients "\<lambda>i a. 1 / 2"]
    by (simp only: example_responses)
  from inst [THEN conjunct2, THEN conjunct2, THEN mp, OF conjI [OF oh hr]] i1h
  have "ratelimited_write_grade_haiku ([''moon'', ''sea''] ! 1) timeout_client
          = Inr ([None, None] ! 1)"
    by blast
  then have c4: "ratelimited_write_grade_haiku ''sea'' timeout_client = Inr None"
    by simp
  from o3 c1 example_order c3 c2 oh hr c4 show ?thesis by blast
qed

section \<open>Properties of the analytics queries\<close>

lemma set_select_join:
  "set (select_columns (filter (\<lambda>(i, f). P i f) (join_on (\<lambda>i f. i_id i = f_target_id f) I F)))
     = {(i_variant_name i, i_input i, i_output i, f_value f) | i f.
          i \<in> set I \<and> f \<in> set F \<and> i_id i = f_target_id f \<and> P i f}"
  by (auto simp: select_columns_def join_on_def)

lemma haiku_query_example:
  "haiku_query example_inferences example_feedback
     = [(''initial_prompt'', ''moon'', ''a haiku'', True),
        (''initial_prompt'', ''moon'', ''a haiku'', False)]"
  by (simp add: haiku_query_def select_columns_def join_on_def example_inferences_def
      example_feedback_def)

text \<open>
  The query of the haiku notebook is not a join filtered by function name and metric name,
  whatever the two names: in the example database it returns the feedback of two metrics
  for one inference.
\<close>

theorem haiku_query_not_filtered_by_metric:
  "\<not> (\<exists>fname mname. \<forall>inferences feedback.
          set (haiku_query inferences feedback) = joined_filtered fname mname inferences feedback)"
proof
  assume "\<exists>fname mname. \<forall>inferences feedback.
          set (haiku_query inferences feedback) = joined_filtered fname mname inferences feedback"
  then obtain fname mname where
    "set (haiku_query example_inferences example_feedback)
       = joined_filtered fname mname example_inferences example_feedback"
    by blast
  then have rows: "{(''initial_prompt'', ''moon'', ''a haiku'', True),
        (''initial_prompt'', ''moon'', ''a haiku'', False)}
       = joined_filtered fname mname example_inferences example_feedback"
    by (simp add: haiku_query_example)
  have "(''initial_prompt'', ''moon'', ''a haiku'', True)
          \<in> joined_filtered fname mname example_inferences example_feedback"
    unfolding rows [symmetric] by simp
  then have t: "mname = ''haiku_score''"
    by (auto simp: joined_filtered_def example_feedback_def)
  have "(''initial_prompt'', ''moon'', ''a haiku'', False)
          \<in> joined_filtered fname mname example_inferences example_feedback"
    unfolding rows [symmetric] by simp
  then have "mname = ''thumbs_up''"
    by (auto simp: joined_filtered_def example_feedback_def)
  with t show False by simp
qed

text \<open>
  C7 (as the code has it). Every query joins the inference table with a feedback table on
  the identifier of the inference (\<open>i.id = target_id\<close>) and keeps the rows of one function
  name. The two queries of the NER notebook also keep the rows of one metric name only; the
  query of the haiku notebook has no condition on the metric name. The rows returned are
  aggregated by variant name: the mean of the values of the rows of each variant.
\<close>

theorem queries_join_and_filter:
  "set (ner_boolean_query metric_name JsonInference BooleanMetricFeedback)
     = joined_filtered ''extract_entities'' metric_name JsonInference BooleanMetricFeedback
   \<and> set (ner_float_query JsonInference FloatMetricFeedback)
     = joined_filtered ''extract_entities'' ''jaccard_similarity'' JsonInference FloatMetricFeedback
   \<and> set (haiku_query ChatInference BooleanMetricFeedback)
     = joined_by_function ''write_haiku'' ChatInference BooleanMetricFeedback
   \<and> groupby_mean num df variant
     = (if variant \<in> fst ` set df
        then Some (sum_list (map (\<lambda>row. num (snd (snd (snd row)))) (variant_rows variant df))
                     / of_nat (length (variant_rows variant df)))
        else None)"
proof (intro conjI)
  show "set (ner_boolean_query metric_name JsonInference BooleanMetricFeedback)
     = joined_filtered ''extract_entities'' metric_name JsonInference BooleanMetricFeedback"
    unfolding ner_boolean_query_def joined_filtered_def set_select_join by blast
  show "set (ner_float_query JsonInference FloatMetricFeedback)
     = joined_filtered ''extract_entities'' ''jaccard_similarity'' JsonInference FloatMetricFeedback"
    unfolding ner_float_query_def joined_filtered_def set_select_join by blast
  show "set (haiku_query ChatInference BooleanMetricFeedback)
     = joined_by_function ''write_haiku'' ChatInference BooleanMetricFeedback"
    unfolding haiku_query_def joined_by_function_def set_select_join by blast
  have f: "filter (\<lambda>(vn, inp, outp, v). vn = variant) df = variant_rows variant df"
    by (simp add: variant_rows_def split_def)
  have e: "variant_rows variant df = [] \<longleftrightarrow> variant \<notin> fst ` set df"
    by (auto simp: variant_rows_def filter_empty_conv)
  have m: "map (\<lambda>(vn, inp, outp, v). num v) (variant_rows variant df)
             = map (\<lambda>row. num (snd (snd (snd row)))) (variant_rows variant df)"
    by (simp add: split_def)
  show "groupby_mean num df variant
     = (if variant \<in> fst ` set df
        then Some (sum_list (map (\<lambda>row. num (snd (snd (snd row)))) (variant_rows variant df))
                     / of_nat (length (variant_rows variant df)))
        else None)"
    unfolding groupby_mean_def Let_def f m using e by simp
qed

lemma groupby_mean_example:
  "groupby_mean bool_value (haiku_query example_inferences example_feedback) ''initial_prompt''
     = Some (1 / 2)"
  by (simp add: haiku_query_example groupby_mean_def bool_value_def)

section \<open>Properties of the scheduling\<close>

lemma task_step_holding:
  "task_step kind p a p' \<Longrightarrow>
     (case a of Acquire \<Rightarrow> \<not> holding p \<and> holding p'
              | Release \<Rightarrow> holding p \<and> \<not> holding p'
              | Internal \<Rightarrow> holding p = holding p')"
  by (induction rule: task_step.induct) simp_all

lemma task_step_pc_of_kind:
  "task_step kind p a p' \<Longrightarrow> pc_of_kind kind p \<Longrightarrow> pc_of_kind kind p'"
  by (induction rule: task_step.induct) simp_all

lemma length_filter_update:
  assumes "i < length xs"
  shows "length (filter P (xs[i := y])) + (if P (xs ! i) then 1 else 0)
           = length (filter P xs) + (if P y then 1 else 0)"
  using assms
proof (induction xs arbitrary: i)
  case Nil
  then show ?case by simp
next
  case (Cons x xs)
  then show ?case by (cases i) auto
qed

lemma holders_update:
  assumes "i < length (pcs st)"
  shows "holders (st\<lparr>sem := v, pcs := (pcs st)[i := p]\<rparr>) + (if holding (pcs st ! i) then 1 else 0)
           = holders st + (if holding p then 1 else 0)"
  using length_filter_update [OF assms, of holding p] by (simp add: holders_def)

lemma sched_inv_initial: "sched_inv kind limit (initial limit n)"
  by (simp add: sched_inv_def initial_def holders_def list_all_iff)

lemma list_all_update:
  "list_all P xs \<Longrightarrow> P y \<Longrightarrow> list_all P (xs[i := y])"
  by (auto simp: list_all_iff dest: set_update_subset_insert [THEN subsetD])

lemma sched_inv_step:
  assumes "step kind st st'" and "sched_inv kind limit st"
  shows "sched_inv kind limit st'"
  using assms
proof (induction rule: step.induct)
  case (acquire i st kind p)
  from task_step_holding [OF acquire(2)] have h: "\<not> holding (pcs st ! i)" "holding p"
    by simp_all
  from acquire(1,4) have ok: "pc_of_kind kind (pcs st ! i)"
    by (simp add: sched_inv_def list_all_length)
  have "holders \<lparr>sem = sem st - 1, pcs = (pcs st)[i := p]\<rparr> = holders st + 1"
    using length_filter_update [OF acquire(1), of holding p] h by (simp add: holders_def)
  with acquire task_step_pc_of_kind [OF acquire(2) ok] show ?case
    by (simp add: sched_inv_def list_all_update)
next
  case (release i st kind p)
  from task_step_holding [OF release(2)] have h: "holding (pcs st ! i)" "\<not> holding p"
    by simp_all
  from release(1,3) have ok: "pc_of_kind kind (pcs st ! i)"
    by (simp add: sched_inv_def list_all_length)
  have "holders \<lparr>sem = sem st + 1, pcs = (pcs st)[i := p]\<rparr> + 1 = holders st"
    using length_filter_update [OF release(1), of holding p] h by (simp add: holders_def)
  with release task_step_pc_of_kind [OF release(2) ok] show ?case
    by (auto simp add: sched_inv_def list_all_update)
next
  case (internal i st kind p)
  from task_step_holding [OF internal(2)] have h: "holding (pcs st ! i) = holding p"
    by simp
  from internal(1,3) have ok: "pc_of_kind kind (pcs st ! i)"
    by (simp add: sched_inv_def list_all_length)
  have "holders \<lparr>sem = sem st, pcs = (pcs st)[i := p]\<rparr> = holders st"
    using length_filter_update [OF internal(1), of holding p] h by (simp add: holders_def)
  with internal task_step_pc_of_kind [OF internal(2) ok] show ?case
    by (simp add: sched_inv_def list_all_update)
qed

lemma sched_inv_reachable:
  assumes "reachable kind limit n st"
  shows "sched_inv kind limit st"
  using assms unfolding reachable_def
  by (induction rule: rtranclp_induct) (simp_all add: sched_inv_initial sched_inv_step)

lemma length_pcs_step: "step kind st st' \<Longrightarrow> length (pcs st') = length (pcs st)"
  by (induction rule: step.induct) simp_all

lemma length_pcs_reachable: "reachable kind limit n st \<Longrightarrow> length (pcs st) = n"
  unfolding reachable_def
  by (induction rule: rtranclp_induct) (simp_all add: initial_def length_pcs_step)

lemma in_flight_inference:
  assumes "list_all (pc_of_kind kind) ps" and "kind \<noteq> Evaluate_send_feedback"
  shows "sum_list (map calls_in_flight ps) \<le> length (filter holding ps)"
  using assms
proof (induction ps)
  case Nil
  then show ?case by simp
next
  case (Cons p ps)
  then show ?case by (cases p) auto
qed

lemma in_flight_feedback:
  assumes "list_all (pc_of_kind kind) ps"
  shows "sum_list (map calls_in_flight (filter holding ps)) \<le> 4 * length (filter holding ps)"
  using assms
proof (induction ps)
  case Nil
  then show ?case by simp
next
  case (Cons p ps)
  then show ?case by (cases p) auto
qed

lemma task_step_entered: "task_step kind Waiting Acquire (entered kind)"
  by (cases kind) (simp_all only: entered.simps task_step.mi_enter task_step.wg_enter task_step.fb_enter)

lemma replicate_enter:
  assumes "k < n"
  shows "(replicate k a @ replicate (n - k) b)[k := a]
           = replicate (Suc k) a @ replicate (n - Suc k) b"
proof -
  from assms have n: "n - k = Suc (n - Suc k)"
    by simp
  have "(replicate k a @ replicate (n - k) b)[k := a]
          = replicate k a @ (b # replicate (n - Suc k) b)[0 := a]"
    unfolding n by (simp add: list_update_append)
  also have "\<dots> = (replicate k a @ [a]) @ replicate (n - Suc k) b"
    by simp
  also have "replicate k a @ [a] = replicate (Suc k) a"
    by (simp add: replicate_append_same)
  finally show ?thesis .
qed

lemma step_enter:
  assumes "k < n" and "k < limit"
  shows "step kind (entered_state kind limit n k) (entered_state kind limit n (Suc k))"
proof -
  let ?st = "entered_state kind limit n k"
  have i: "k < length (pcs ?st)"
    using assms by (simp add: entered_state_def)
  have w: "pcs ?st ! k = Waiting"
    using assms by (simp add: entered_state_def nth_append)
  have s: "0 < sem ?st"
    using assms by (simp add: entered_state_def)
  have "step kind ?st \<lparr>sem = sem ?st - 1, pcs = (pcs ?st)[k := entered kind]\<rparr>"
    using i s task_step_entered [of kind] by (intro step.acquire) (simp_all add: w)
  moreover have "\<lparr>sem = sem ?st - 1, pcs = (pcs ?st)[k := entered kind]\<rparr>
                   = entered_state kind limit n (Suc k)"
    using replicate_enter [OF assms(1)] by (simp add: entered_state_def)
  ultimately show ?thesis by simp
qed

lemma reachable_entered_state:
  "k \<le> n \<Longrightarrow> k \<le> limit \<Longrightarrow> reachable kind limit n (entered_state kind limit n k)"
proof (induction k)
  case 0
  then show ?case by (simp add: reachable_def entered_state_def initial_def)
next
  case (Suc k)
  then have "reachable kind limit n (entered_state kind limit n k)"
    by simp
  moreover from Suc.prems have "step kind (entered_state kind limit n k) (entered_state kind limit n (Suc k))"
    by (intro step_enter) simp_all
  ultimately show ?case
    unfolding reachable_def by (rule rtranclp.rtrancl_into_rtrancl)
qed

lemma in_flight_entered_state:
  "in_flight (entered_state kind limit n k) = k * calls_in_flight (entered kind)"
  by (simp add: in_flight_def entered_state_def sum_list_replicate)

lemma holders_entered_state: "holders (entered_state kind limit n k) = k"
  by (cases kind) (simp_all add: holders_def entered_state_def)

text \<open>
  The feedback calls in flight are not bounded by the size of the semaphore: with 100
  responses, once 20 tasks have entered the block 80 feedback calls are in flight.
\<close>

theorem feedback_calls_exceed_semaphore:
  "\<not> (\<forall>st. reachable Evaluate_send_feedback MAX_CONCURRENT_REQUESTS NUM_TRAIN_PREDICTIONS st
             \<longrightarrow> in_flight st \<le> MAX_CONCURRENT_REQUESTS)"
proof
  let ?st = "entered_state Evaluate_send_feedback MAX_CONCURRENT_REQUESTS NUM_TRAIN_PREDICTIONS 20"
  assume "\<forall>st. reachable Evaluate_send_feedback MAX_CONCURRENT_REQUESTS NUM_TRAIN_PREDICTIONS st
             \<longrightarrow> in_flight st \<le> MAX_CONCURRENT_REQUESTS"
  moreover have "reachable Evaluate_send_feedback MAX_CONCURRENT_REQUESTS NUM_TRAIN_PREDICTIONS ?st"
    by (rule reachable_entered_state)
      (simp_all add: MAX_CONCURRENT_REQUESTS_def NUM_TRAIN_PREDICTIONS_def)
  ultimately have "in_flight ?st \<le> MAX_CONCURRENT_REQUESTS"
    by blast
  then show False
    by (simp add: in_flight_entered_state MAX_CONCURRENT_REQUESTS_def)
qed

text \<open>
  C8 (as the code has it). At every moment of a batch the value of the semaphore and the
  number of tasks inside \<open>async with semaphore\<close> add up to the size of the semaphore (20 in
  the NER notebook, 50 in the haiku notebook), so at most that many tasks are inside. A
  task that runs inference has a call in flight only inside the block, and one at a time,
  so the inference calls in flight are at most the size of the semaphore. A feedback task
  of the NER notebook starts its four feedback calls together inside the block, so the
  feedback calls in flight of the tasks inside are at most four times the size.
\<close>

theorem semaphore_bounds:
  assumes "reachable kind limit n st"
  shows "sem st + holders st = limit
       \<and> holders st \<le> limit
       \<and> in_flight_of_holders st \<le> 4 * limit
       \<and> (kind \<noteq> Evaluate_send_feedback
            \<longrightarrow> in_flight st = in_flight_of_holders st \<and> in_flight st \<le> limit)"
proof -
  from sched_inv_reachable [OF assms]
  have s: "sem st + holders st = limit" and ok: "list_all (pc_of_kind kind) (pcs st)"
    by (simp_all add: sched_inv_def)
  from s have h: "holders st \<le> limit"
    by simp
  from in_flight_feedback [OF ok] h have f: "in_flight_of_holders st \<le> 4 * limit"
    by (simp add: in_flight_of_holders_def holders_def)
  have i: "in_flight st = in_flight_of_holders st \<and> in_flight st \<le> limit"
    if k: "kind \<noteq> Evaluate_send_feedback"
  proof
    from ok k show "in_flight st = in_flight_of_holders st"
      unfolding in_flight_def in_flight_of_holders_def
    proof (induction "pcs st" arbitrary: st)
      case Nil
      then show ?case by simp
    next
      case (Cons p ps)
      from Cons(2) [symmetric] Cons(3,4) Cons(1) [of "st\<lparr>pcs := ps\<rparr>"] show ?case
        by (cases p) auto
    qed
    from in_flight_inference [OF ok k] h show "in_flight st \<le> limit"
      by (simp add: in_flight_def holders_def)
  qed
  from s h f i show ?thesis by blast
qed

theorem semaphore_bounds_witness:
  "reachable Make_inference MAX_CONCURRENT_REQUESTS NUM_TRAIN_PREDICTIONS
     (entered_state Make_inference MAX_CONCURRENT_REQUESTS NUM_TRAIN_PREDICTIONS 20)
   \<and> sem (entered_state Make_inference MAX_CONCURRENT_REQUESTS NUM_TRAIN_PREDICTIONS 20) = 0
   \<and> holders (entered_state Make_inference MAX_CONCURRENT_REQUESTS NUM_TRAIN_PREDICTIONS 20) = 20
   \<and> in_flight (entered_state Make_inference MAX_CONCURRENT_REQUESTS NUM_TRAIN_PREDICTIONS 20) = 20
   \<and> Make_inference \<noteq> Evaluate_send_feedback
   \<and> in_flight (entered_state Make_inference MAX_CONCURRENT_REQUESTS NUM_TRAIN_PREDICTIONS 20)
       \<le> MAX_CONCURRENT_REQUESTS
   \<and> reachable Evaluate_send_feedback MAX_CONCURRENT_REQUESTS NUM_TRAIN_PREDICTIONS
       (entered_state Evaluate_send_feedback MAX_CONCURRENT_REQUESTS NUM_TRAIN_PREDICTIONS 20)
   \<and> in_flight_of_holders
       (entered_state Evaluate_send_feedback MAX_CONCURRENT_REQUESTS NUM_TRAIN_PREDICTIONS 20) = 80
   \<and> in_flight_of_holders
       (entered_state Evaluate_send_feedback MAX_CONCURRENT_REQUESTS NUM_TRAIN_PREDICTIONS 20)
       \<le> 4 * MAX_CONCURRENT_REQUESTS"
proof -
  let ?mi = "entered_state Make_inference MAX_CONCURRENT_REQUESTS NUM_TRAIN_PREDICTIONS 20"
  let ?fb = "entered_state Evaluate_send_feedback MAX_CONCURRENT_REQUESTS NUM_TRAIN_PREDICTIONS 20"
  have r1: "reachable Make_inference MAX_CONCURRENT_REQUESTS NUM_TRAIN_PREDICTIONS ?mi"
    by (rule reachable_entered_state)
      (simp_all add: MAX_CONCURRENT_REQUESTS_def NUM_TRAIN_PREDICTIONS_def)
  have r2: "reachable Evaluate_send_feedback MAX_CONCURRENT_REQUESTS NUM_TRAIN_PREDICTIONS ?fb"
    by (rule reachable_entered_state)
      (simp_all add: MAX_CONCURRENT_REQUESTS_def NUM_TRAIN_PREDICTIONS_def)
  have k: "Make_inference \<noteq> Evaluate_send_feedback"
    by simp
  have v: "sem ?mi = 0" "holders ?mi = 20" "in_flight ?mi = 20"
    by (simp_all add: holders_entered_state in_flight_entered_state)
      (simp add: entered_state_def MAX_CONCURRENT_REQUESTS_def)
  have "pcs ?fb = replicate 20 (Sending 4) @ replicate (NUM_TRAIN_PREDICTIONS - 20) Waiting"
    by (simp add: entered_state_def)
  then have v4: "in_flight_of_holders ?fb = 80"
    by (simp add: in_flight_of_holders_def sum_list_replicate)
  from semaphore_bounds [OF r1] k have "in_flight ?mi \<le> MAX_CONCURRENT_REQUESTS"
    by blast
  moreover from semaphore_bounds [OF r2]
  have "in_flight_of_holders ?fb \<le> 4 * MAX_CONCURRENT_REQUESTS"
    by blast
  ultimately show ?thesis
    using r1 r2 k v v4 by blast
qed

end
